theory Spec2Isabelle
  imports Complex_Main
begin

section \<open>Values and records\<close>

text \<open>
  The pipeline passes Python dictionaries around. A value held by a weather field is an
  \<open>int\<close>, a \<open>float\<close> or a \<open>str\<close>; a finite number is modelled by its exact rational
  value, and a \<open>float\<close> can also be an infinity or NaN (which \<open>json.loads\<close> accepts).
  Each field of a dictionary is in one of three states: the key is absent, the key is
  bound to \<open>None\<close>, or the key is bound to a value. Timestamps are natural numbers.
\<close>

datatype pyval = PInt int | PFloat rat | PosInf | NegInf | NaN | PStr string

datatype 'a field = Absent | Null | Val 'a

type_synonym time = nat

record weather_rec =
  city :: "pyval field"
  country :: "pyval field"
  temperature :: "pyval field"
  feels_like :: "pyval field"
  humidity :: "pyval field"
  pressure :: "pyval field"
  weather_condition :: "pyval field"
  wind_speed :: "pyval field"
  raw_data :: "string field"
  extracted_at :: "time field"

text \<open>\<open>field not in record or record[field] is None\<close>, for one field.\<close>

definition unset :: "'a field \<Rightarrow> bool" where
  "unset v = (case v of Val _ \<Rightarrow> False | Null \<Rightarrow> True | Absent \<Rightarrow> True)"

text \<open>The same test by field name; a name that is no field of the record is not in it.\<close>

definition missing :: "weather_rec \<Rightarrow> string \<Rightarrow> bool" where
  "missing r f =
     (if f = ''city'' then unset (city r)
      else if f = ''country'' then unset (country r)
      else if f = ''temperature'' then unset (temperature r)
      else if f = ''feels_like'' then unset (feels_like r)
      else if f = ''humidity'' then unset (humidity r)
      else if f = ''pressure'' then unset (pressure r)
      else if f = ''weather_condition'' then unset (weather_condition r)
      else if f = ''wind_speed'' then unset (wind_speed r)
      else if f = ''raw_data'' then unset (raw_data r)
      else if f = ''extracted_at'' then unset (extracted_at r)
      else True)"

section \<open>Exceptions\<close>

text \<open>
  A raised exception is a value: the result of code that can raise is \<open>exn + 'a\<close>, with
  \<open>Inl\<close> for the exception. \<open>str_exn\<close> is Python's \<open>str(e)\<close>: the message, and for a
  \<open>KeyError\<close> the key between single quotes.
\<close>

datatype exn =
    KeyError string | TypeError string | AttributeError string
  | ValueError string | OverflowError string | Error string

definition quoted :: "string \<Rightarrow> string" where
  "quoted s = [CHR 0x27] @ s @ [CHR 0x27]"

definition str_exn :: "exn \<Rightarrow> string" where
  "str_exn e =
     (case e of
        KeyError k \<Rightarrow> quoted k
      | TypeError m \<Rightarrow> m
      | AttributeError m \<Rightarrow> m
      | ValueError m \<Rightarrow> m
      | OverflowError m \<Rightarrow> m
      | Error m \<Rightarrow> m)"

definition bind_exn :: "exn + 'a \<Rightarrow> ('a \<Rightarrow> exn + 'b) \<Rightarrow> exn + 'b" where
  "bind_exn m f = (case m of Inl e \<Rightarrow> Inl e | Inr x \<Rightarrow> f x)"

text \<open>\<open>record[key]\<close>: a \<open>KeyError\<close> when the key is absent, otherwise the bound value,
  which may be \<open>None\<close>.\<close>

definition subscript :: "string \<Rightarrow> 'a field \<Rightarrow> exn + 'a option" where
  "subscript k v =
     (case v of Absent \<Rightarrow> Inl (KeyError k) | Null \<Rightarrow> Inr None | Val x \<Rightarrow> Inr (Some x))"

text \<open>\<open>type(v).__name__\<close>\<close>

definition type_name :: "pyval option \<Rightarrow> string" where
  "type_name v =
     (case v of
        None \<Rightarrow> ''NoneType''
      | Some (PInt i) \<Rightarrow> ''int''
      | Some (PFloat x) \<Rightarrow> ''float''
      | Some PosInf \<Rightarrow> ''float''
      | Some NegInf \<Rightarrow> ''float''
      | Some NaN \<Rightarrow> ''float''
      | Some (PStr s) \<Rightarrow> ''str'')"

section \<open>Comparisons with an integer literal\<close>

text \<open>
  The four comparisons the validators make, each between a value and an \<open>int\<close> literal
  \<open>k\<close>. A comparison with NaN is false, one with a \<open>str\<close> raises \<open>TypeError\<close>.
\<close>

definition not_supported :: "string \<Rightarrow> string \<Rightarrow> string \<Rightarrow> string" where
  "not_supported opr l r =
     quoted opr @ '' not supported between instances of '' @ quoted l @ '' and '' @ quoted r"

text \<open>\<open>k <= v\<close>\<close>

definition int_le :: "int \<Rightarrow> pyval \<Rightarrow> exn + bool" where
  "int_le k v =
     (case v of
        PInt i \<Rightarrow> Inr (k \<le> i)
      | PFloat x \<Rightarrow> Inr (of_int k \<le> x)
      | PosInf \<Rightarrow> Inr True
      | NegInf \<Rightarrow> Inr False
      | NaN \<Rightarrow> Inr False
      | PStr s \<Rightarrow> Inl (TypeError (not_supported ''<='' ''int'' ''str'')))"

text \<open>\<open>v <= k\<close>\<close>

definition le_int :: "pyval \<Rightarrow> int \<Rightarrow> exn + bool" where
  "le_int v k =
     (case v of
        PInt i \<Rightarrow> Inr (i \<le> k)
      | PFloat x \<Rightarrow> Inr (x \<le> of_int k)
      | PosInf \<Rightarrow> Inr False
      | NegInf \<Rightarrow> Inr True
      | NaN \<Rightarrow> Inr False
      | PStr s \<Rightarrow> Inl (TypeError (not_supported ''<='' ''str'' ''int'')))"

text \<open>\<open>v < k\<close>\<close>

definition lt_int :: "pyval \<Rightarrow> int \<Rightarrow> exn + bool" where
  "lt_int v k =
     (case v of
        PInt i \<Rightarrow> Inr (i < k)
      | PFloat x \<Rightarrow> Inr (x < of_int k)
      | PosInf \<Rightarrow> Inr False
      | NegInf \<Rightarrow> Inr True
      | NaN \<Rightarrow> Inr False
      | PStr s \<Rightarrow> Inl (TypeError (not_supported ''<'' ''str'' ''int'')))"

text \<open>\<open>v > k\<close>\<close>

definition gt_int :: "pyval \<Rightarrow> int \<Rightarrow> exn + bool" where
  "gt_int v k =
     (case v of
        PInt i \<Rightarrow> Inr (k < i)
      | PFloat x \<Rightarrow> Inr (of_int k < x)
      | PosInf \<Rightarrow> Inr True
      | NegInf \<Rightarrow> Inr False
      | NaN \<Rightarrow> Inr False
      | PStr s \<Rightarrow> Inl (TypeError (not_supported ''>'' ''str'' ''int'')))"

text \<open>The chained comparison \<open>lo <= v <= hi\<close>: the second comparison is made only when
  the first is true.\<close>

definition chained :: "int \<Rightarrow> pyval \<Rightarrow> int \<Rightarrow> exn + bool" where
  "chained lo v hi = bind_exn (int_le lo v) (\<lambda>a. if a then le_int v hi else Inr False)"

text \<open>\<open>v < lo or v > hi\<close>: the second comparison is made only when the first is false.\<close>

definition outside :: "pyval \<Rightarrow> int \<Rightarrow> int \<Rightarrow> exn + bool" where
  "outside v lo hi = bind_exn (lt_int v lo) (\<lambda>a. if a then Inr True else gt_int v hi)"

section \<open>WeatherDataValidator\<close>

definition required_fields :: "string list" where
  "required_fields =
     [''city'', ''country'', ''temperature'', ''humidity'', ''pressure'', ''wind_speed'']"

text \<open>
  \<open>validate_record\<close> of \<open>data_validator.py\<close>. The parameter \<open>fmt\<close> is Python's
  rendering of a value inside an f-string. The first loop collects one message per
  missing field and the function returns at once when there is any; the four range
  checks follow in the order of the source: temperature, humidity, wind speed, pressure.
  Temperature and humidity are tested with \<open>not (lo <= v <= hi)\<close>, wind speed with
  \<open>v < 0\<close> and pressure with \<open>v < 900 or v > 1100\<close>. A comparison that raises ends the
  function with the exception.
\<close>

definition missing_message :: "string \<Rightarrow> string" where
  "missing_message f = ''Missing or null field: '' @ f"

definition temperature_message :: "(pyval \<Rightarrow> string) \<Rightarrow> pyval \<Rightarrow> string" where
  "temperature_message fmt t = ''Temperature out of range: '' @ fmt t @ '', expected -50 to 60)''"

definition humidity_message :: "(pyval \<Rightarrow> string) \<Rightarrow> pyval \<Rightarrow> string" where
  "humidity_message fmt h = ''Humidity out of range: '' @ fmt h @ ''%, expected 0 to 100''"

definition wind_message :: "(pyval \<Rightarrow> string) \<Rightarrow> pyval \<Rightarrow> string" where
  "wind_message fmt w = ''Negative wind speed: '' @ fmt w"

definition pressure_message :: "(pyval \<Rightarrow> string) \<Rightarrow> pyval \<Rightarrow> string" where
  "pressure_message fmt p = ''Pressure out of range: '' @ fmt p @ '' hPa, expected 900 to 1100''"

definition required_check :: "weather_rec \<Rightarrow> string list" where
  "required_check r =
     foldl (\<lambda>errors f. if missing r f then errors @ [missing_message f] else errors)
       [] required_fields"

text \<open>One range check: \<open>record.get(field)\<close>, the test when the value is not \<open>None\<close>, and
  the message appended when the test says so.\<close>

definition range_check ::
  "pyval field \<Rightarrow> (pyval \<Rightarrow> exn + bool) \<Rightarrow> (pyval \<Rightarrow> string) \<Rightarrow> string list \<Rightarrow> exn + string list" where
  "range_check v bad msg errors =
     (case v of
        Val x \<Rightarrow> bind_exn (bad x) (\<lambda>b. Inr (if b then errors @ [msg x] else errors))
      | Null \<Rightarrow> Inr errors
      | Absent \<Rightarrow> Inr errors)"

definition validate_record ::
  "(pyval \<Rightarrow> string) \<Rightarrow> weather_rec \<Rightarrow> exn + bool \<times> string list" where
  "validate_record fmt r =
     (let errors = required_check r in
      if errors \<noteq> [] then Inr (False, errors)
      else
        bind_exn (range_check (temperature r)
                    (\<lambda>t. bind_exn (chained (- 50) t 60) (\<lambda>ok. Inr (\<not> ok)))
                    (temperature_message fmt) errors) (\<lambda>errors.
        bind_exn (range_check (humidity r)
                    (\<lambda>h. bind_exn (chained 0 h 100) (\<lambda>ok. Inr (\<not> ok)))
                    (humidity_message fmt) errors) (\<lambda>errors.
        bind_exn (range_check (wind_speed r) (\<lambda>w. lt_int w 0)
                    (wind_message fmt) errors) (\<lambda>errors.
        bind_exn (range_check (pressure r) (\<lambda>p. outside p 900 1100)
                    (pressure_message fmt) errors) (\<lambda>errors.
          Inr (length errors = 0, errors))))))"

section \<open>validate\_batch\<close>

text \<open>
  Both validators have the same \<open>validate_batch\<close>: one pass over the input that appends
  each record either to \<open>valid_records\<close> or, paired with its errors, to
  \<open>invalid_records\<close>. The loop has no \<open>try\<close>: an exception of the record validator
  ends it, and no summary is returned. It is written once, over the record validator.
\<close>

record 'r invalid_record =
  inv_record :: 'r
  inv_errors :: "string list"

record 'r summary =
  total_records :: nat
  valid_count :: nat
  invalid_count :: nat
  valid_records :: "'r list"
  invalid_records :: "'r invalid_record list"

fun batch_loop ::
  "('r \<Rightarrow> exn + bool \<times> string list) \<Rightarrow> 'r list \<Rightarrow> 'r list \<Rightarrow> 'r invalid_record list
     \<Rightarrow> exn + 'r list \<times> 'r invalid_record list" where
  "batch_loop v [] valid invalid = Inr (valid, invalid)"
| "batch_loop v (r # rs) valid invalid =
     (case v r of
        Inl e \<Rightarrow> Inl e
      | Inr (is_valid, errors) \<Rightarrow>
          if is_valid then batch_loop v rs (valid @ [r]) invalid
          else batch_loop v rs valid (invalid @ [\<lparr>inv_record = r, inv_errors = errors\<rparr>]))"

definition validate_batch_with ::
  "('r \<Rightarrow> exn + bool \<times> string list) \<Rightarrow> 'r list \<Rightarrow> exn + 'r summary" where
  "validate_batch_with v records =
     (case batch_loop v records [] [] of
        Inl e \<Rightarrow> Inl e
      | Inr (valid, invalid) \<Rightarrow>
          Inr \<lparr>total_records = length records,
               valid_count = length valid,
               invalid_count = length invalid,
               valid_records = valid,
               invalid_records = invalid\<rparr>)"

definition validate_batch ::
  "(pyval \<Rightarrow> string) \<Rightarrow> weather_rec list \<Rightarrow> exn + weather_rec summary" where
  "validate_batch fmt records = validate_batch_with (validate_record fmt) records"

section \<open>CSVDataValidator\<close>

text \<open>
  A CSV record is \<open>{source_file, row_number, data}\<close> where \<open>data\<close> is the dictionary of
  one row (a value of it is \<open>None\<close> or a \<open>pyval\<close>); \<open>record.get("data", {})\<close> reads an
  absent key as the empty dictionary. What the Python library decides is taken as a
  parameter: \<open>str\<close> of a value, whether \<open>datetime.strptime(_, "%Y-%m-%d")\<close> succeeds,
  the \<open>float\<close> and the \<open>int\<close> a string parses to (\<open>None\<close> when the string is not
  one: \<open>ValueError\<close>), \<open>str.strip\<close>, \<open>str.upper\<close>, \<open>str.lower\<close> and the f-string
  rendering of a value.
\<close>

record csv_record =
  source_file :: string
  row_number :: int
  data :: "(string \<rightharpoonup> pyval option) option"

record py_builtins =
  render :: "pyval \<Rightarrow> string"
  str_of :: "pyval option \<Rightarrow> string"
  strptime_ok :: "string \<Rightarrow> bool"
  parse_float :: "string \<Rightarrow> pyval option"
  parse_int :: "string \<Rightarrow> int option"
  strip :: "string \<Rightarrow> string"
  str_upper :: "string \<Rightarrow> string"
  str_lower :: "string \<Rightarrow> string"

text \<open>\<open>float(v)\<close>: a number is converted (an \<open>int\<close> that rounds beyond the largest
  \<open>float\<close> raises \<open>OverflowError\<close>), a string parsed, \<open>None\<close> is a \<open>TypeError\<close>.\<close>

definition py_float :: "py_builtins \<Rightarrow> pyval option \<Rightarrow> exn + pyval" where
  "py_float b v =
     (case v of
        None \<Rightarrow> Inl (TypeError ''float() argument must be a string or a real number'')
      | Some (PInt i) \<Rightarrow>
          (if \<bar>i\<bar> < 2 ^ 1024 - 2 ^ 970 then Inr (PFloat (of_int i))
           else Inl (OverflowError ''int too large to convert to float''))
      | Some (PFloat x) \<Rightarrow> Inr (PFloat x)
      | Some PosInf \<Rightarrow> Inr PosInf
      | Some NegInf \<Rightarrow> Inr NegInf
      | Some NaN \<Rightarrow> Inr NaN
      | Some (PStr s) \<Rightarrow>
          (case parse_float b s of
             None \<Rightarrow> Inl (ValueError ''could not convert string to float'')
           | Some f \<Rightarrow> Inr f))"

text \<open>\<open>int(v)\<close>: a finite \<open>float\<close> is truncated towards zero, an infinity raises
  \<open>OverflowError\<close>, NaN and an unparsable string raise \<open>ValueError\<close>.\<close>

definition py_int :: "py_builtins \<Rightarrow> pyval option \<Rightarrow> exn + int" where
  "py_int b v =
     (case v of
        None \<Rightarrow> Inl (TypeError ''int() argument must be a string or a real number'')
      | Some (PInt i) \<Rightarrow> Inr i
      | Some (PFloat x) \<Rightarrow> Inr (if 0 \<le> x then \<lfloor>x\<rfloor> else \<lceil>x\<rceil>)
      | Some PosInf \<Rightarrow> Inl (OverflowError ''cannot convert float infinity to integer'')
      | Some NegInf \<Rightarrow> Inl (OverflowError ''cannot convert float infinity to integer'')
      | Some NaN \<Rightarrow> Inl (ValueError ''cannot convert float NaN to integer'')
      | Some (PStr s) \<Rightarrow>
          (case parse_int b s of
             None \<Rightarrow> Inl (ValueError ''invalid literal for int() with base 10'')
           | Some i \<Rightarrow> Inr i))"

text \<open>\<open>except (ValueError, TypeError)\<close>: the handler's result replaces a body that raised
  one of the two; any other exception goes on.\<close>

definition except_value_type :: "exn + 'a \<Rightarrow> 'a \<Rightarrow> exn + 'a" where
  "except_value_type body handled =
     (case body of
        Inr x \<Rightarrow> Inr x
      | Inl (ValueError m) \<Rightarrow> Inr handled
      | Inl (TypeError m) \<Rightarrow> Inr handled
      | Inl (KeyError m) \<Rightarrow> Inl (KeyError m)
      | Inl (AttributeError m) \<Rightarrow> Inl (AttributeError m)
      | Inl (OverflowError m) \<Rightarrow> Inl (OverflowError m)
      | Inl (Error m) \<Rightarrow> Inl (Error m))"

definition csv_required_fields :: "string list" where
  "csv_required_fields =
     [''date'', ''product'', ''category'', ''amount'', ''quantity'', ''region'']"

text \<open>\<open>field not in data or data[field] is None or data[field] == ""\<close>\<close>

definition csv_missing :: "(string \<rightharpoonup> pyval option) \<Rightarrow> string \<Rightarrow> bool" where
  "csv_missing d f = (d f = None \<or> d f = Some None \<or> d f = Some (Some (PStr [])))"

text \<open>
  \<open>data[field]\<close> after the required-field check, which has established that the key is
  bound; \<open>data.get("category", "")\<close> has the empty string as its default.
\<close>

definition item :: "(string \<rightharpoonup> pyval option) \<Rightarrow> string \<Rightarrow> pyval option" where
  "item d f = (case d f of Some v \<Rightarrow> v | None \<Rightarrow> Some (PStr []))"

definition csv_required_check :: "(string \<rightharpoonup> pyval option) \<Rightarrow> string list" where
  "csv_required_check d =
     foldl (\<lambda>errors f. if csv_missing d f then errors @ [''Missing required field: '' @ f]
                         else errors)
       [] csv_required_fields"

definition csv_validate_record ::
  "py_builtins \<Rightarrow> csv_record \<Rightarrow> exn + bool \<times> string list" where
  "csv_validate_record b r =
     (let d = (case data r of Some m \<Rightarrow> m | None \<Rightarrow> Map.empty);
          errors = csv_required_check d in
      if errors \<noteq> [] then Inr (False, errors)
      else
        let errors = (if strptime_ok b (str_of b (item d ''date'')) then errors
                      else errors @ [''Invalid date format: '' @ str_of b (item d ''date'')
                                       @ '' (expected YYYY-MM-DD)''])
        in
        bind_exn (except_value_type
                    (bind_exn (py_float b (item d ''amount'')) (\<lambda>amount.
                     bind_exn (le_int amount 0) (\<lambda>nonpos.
                       Inr (if nonpos
                            then errors @ [''Amount must be positive: '' @ render b amount]
                            else errors))))
                    (errors @ [''Amount must be a number: '' @ str_of b (item d ''amount'')]))
          (\<lambda>errors.
        bind_exn (except_value_type
                    (bind_exn (py_int b (item d ''quantity'')) (\<lambda>quantity.
                       Inr (if quantity \<le> 0
                            then errors @ [''Quantity must be positive: ''
                                             @ render b (PInt quantity)]
                            else errors)))
                    (errors @ [''Quantity must be a number: ''
                                 @ str_of b (item d ''quantity'')]))
          (\<lambda>errors.
        let errors = (if strip b (str_of b (item d ''category'')) = []
                      then errors @ [''Category cannot be empty''] else errors)
        in Inr (length errors = 0, errors))))"

definition csv_validate_batch ::
  "py_builtins \<Rightarrow> csv_record list \<Rightarrow> exn + csv_record summary" where
  "csv_validate_batch b records = validate_batch_with (csv_validate_record b) records"

section \<open>WeatherTransformer.transform\_record\<close>

text \<open>
  \<open>v.upper()\<close> and \<open>v.lower()\<close>: the \<open>str\<close> method on a string, \<open>AttributeError\<close> on
  \<open>None\<close> and on a number.
\<close>

definition no_attribute :: "string \<Rightarrow> string \<Rightarrow> string" where
  "no_attribute ty m = quoted ty @ '' object has no attribute '' @ quoted m"

definition upper :: "py_builtins \<Rightarrow> pyval option \<Rightarrow> exn + string" where
  "upper b v =
     (case v of
        Some (PStr s) \<Rightarrow> Inr (str_upper b s)
      | _ \<Rightarrow> Inl (AttributeError (no_attribute (type_name v) ''upper'')))"

definition lower :: "py_builtins \<Rightarrow> pyval option \<Rightarrow> exn + string" where
  "lower b v =
     (case v of
        Some (PStr s) \<Rightarrow> Inr (str_lower b s)
      | _ \<Rightarrow> Inl (AttributeError (no_attribute (type_name v) ''lower'')))"

text \<open>
  \<open>round(x, 1)\<close>. Python rounds the exact value of a finite \<open>float\<close> to the nearest
  multiple of one tenth, a tie going to the even multiple (the decimal result is then
  stored as the nearest double; that last conversion is outside the exact-value model).
  An \<open>int\<close>, an infinity and NaN are returned as they are. On \<open>None\<close> and on a string
  \<open>round\<close> raises \<open>TypeError\<close>.
\<close>

definition round_half_even :: "rat \<Rightarrow> int" where
  "round_half_even x =
     (let f = \<lfloor>x\<rfloor>; d = x - of_int f in
      if d < 1 / 2 then f
      else if 1 / 2 < d then f + 1
      else if even f then f else f + 1)"

definition round1 :: "rat \<Rightarrow> rat" where
  "round1 x = of_int (round_half_even (x * 10)) / 10"

definition no_round :: "string \<Rightarrow> string" where
  "no_round ty = ''type '' @ ty @ '' doesn'' @ [CHR 0x27] @ ''t define __round__ method''"

definition py_round :: "pyval option \<Rightarrow> exn + pyval" where
  "py_round v =
     (case v of
        None \<Rightarrow> Inl (TypeError (no_round ''NoneType''))
      | Some (PInt i) \<Rightarrow> Inr (PInt i)
      | Some (PFloat x) \<Rightarrow> Inr (PFloat (round1 x))
      | Some PosInf \<Rightarrow> Inr PosInf
      | Some NegInf \<Rightarrow> Inr NegInf
      | Some NaN \<Rightarrow> Inr NaN
      | Some (PStr s) \<Rightarrow> Inl (TypeError (no_round ''str'')))"

text \<open>
  A production record, as the dictionary \<open>transform_record\<close> builds. The fields the
  source passes through unchanged can hold \<open>None\<close>; the others are the results of
  \<open>upper\<close>, \<open>lower\<close> and \<open>round\<close>.
\<close>

record production_record =
  p_city :: string
  p_country :: "pyval option"
  p_temperature :: pyval
  p_feels_like :: pyval
  p_humidity :: "pyval option"
  p_pressure :: "pyval option"
  p_weather_condition :: string
  p_wind_speed :: pyval
  p_recorded_at :: "time option"
  p_loaded_at :: time

text \<open>
  \<open>transform_record\<close>: the dictionary display evaluates its values in the order written,
  so the first failing subscript or call decides the exception. \<open>now\<close> is the reading
  of \<open>datetime.now()\<close>.
\<close>

definition transform_record ::
  "py_builtins \<Rightarrow> time \<Rightarrow> weather_rec \<Rightarrow> exn + production_record" where
  "transform_record b now staging_record =
     bind_exn (bind_exn (subscript ''city'' (city staging_record)) (upper b)) (\<lambda>c.
     bind_exn (subscript ''country'' (country staging_record)) (\<lambda>co.
     bind_exn (bind_exn (subscript ''temperature'' (temperature staging_record)) py_round) (\<lambda>t.
     bind_exn (bind_exn (subscript ''feels_like'' (feels_like staging_record)) py_round) (\<lambda>fl.
     bind_exn (subscript ''humidity'' (humidity staging_record)) (\<lambda>h.
     bind_exn (subscript ''pressure'' (pressure staging_record)) (\<lambda>p.
     bind_exn (bind_exn (subscript ''weather_condition'' (weather_condition staging_record))
                 (lower b)) (\<lambda>wc.
     bind_exn (bind_exn (subscript ''wind_speed'' (wind_speed staging_record)) py_round) (\<lambda>ws.
     bind_exn (subscript ''extracted_at'' (extracted_at staging_record)) (\<lambda>ra.
       Inr \<lparr>p_city = c, p_country = co, p_temperature = t, p_feels_like = fl,
            p_humidity = h, p_pressure = p, p_weather_condition = wc, p_wind_speed = ws,
            p_recorded_at = ra, p_loaded_at = now\<rparr>)))))))))"

section \<open>The relational store and the connection\<close>

text \<open>The store is the four tables the pipeline writes, each a list of rows in insertion
  order.\<close>

record run_row =
  run_id :: nat
  pipeline_name :: string
  source_type :: string
  status :: string
  start_time :: time
  end_time :: "time option"
  records_extracted :: "nat option"
  records_loaded :: "nat option"
  error_message :: "string option"

record error_entry =
  err_run_id :: nat
  err_source_type :: string
  err_type :: string
  err_message :: string
  err_raw_data :: weather_rec
  err_created_at :: time

record stg_row =
  stg_id :: nat
  stg_fields :: weather_rec
  load_id :: nat

record tables =
  pipeline_runs :: "run_row list"
  error_log :: "error_entry list"
  stg_weather_data :: "stg_row list"
  weather_metrics :: "production_record list"

text \<open>
  \<open>DatabaseConnection\<close>: the committed tables, and the tables as the open transaction
  sees them. \<open>execute_query\<close> runs a statement in the transaction; it commits after a
  statement that is neither a SELECT nor has a RETURNING clause, it does not commit
  after one that is, and when the statement raises it rolls the transaction back and
  raises again. Closing the connection discards what is not committed.
\<close>

record db =
  committed :: tables
  working :: tables

definition connect :: "tables \<Rightarrow> db" where
  "connect t = \<lparr>committed = t, working = t\<rparr>"

text \<open>A statement that changes the tables by \<open>f\<close> and is then committed.\<close>

definition commit_with :: "(tables \<Rightarrow> tables) \<Rightarrow> db \<Rightarrow> db" where
  "commit_with f c = \<lparr>committed = f (working c), working = f (working c)\<rparr>"

definition rollback :: "db \<Rightarrow> db" where
  "rollback c = c\<lparr>working := committed c\<rparr>"

text \<open>\<open>execute_query\<close> on a writing statement without RETURNING: executed and committed
  when the store accepts it, rolled back and raised otherwise.\<close>

definition execute_write :: "bool \<Rightarrow> (tables \<Rightarrow> tables) \<Rightarrow> db \<Rightarrow> db \<times> exn option" where
  "execute_write accepted f c =
     (if accepted then (commit_with f c, None)
      else (rollback c, Some (Error ''statement rejected'')))"

text \<open>
  Modelled from the spec: the table declarations are not under \<open>src/\<close>. What they decide
  about a statement is taken as a parameter: whether the store accepts a row offered to
  the staging table, the error log and the production table (a rejected row makes
  \<open>execute_query\<close> raise), and the generated staging timestamp (\<open>extracted_at\<close>, which
  the staging INSERT does not supply) of the row with a given id. Two constraints are
  those of the spec: the staging table's \<open>load_id\<close> is a foreign key to the pipeline
  runs, and the production table has the composite unique key
  \<open>(city, country, recorded_at)\<close>.
\<close>

record store =
  stg_accepts :: "weather_rec \<Rightarrow> nat \<Rightarrow> bool"
  err_accepts :: "error_entry \<Rightarrow> bool"
  prod_accepts :: "production_record \<Rightarrow> bool"
  stg_stamp :: "nat \<Rightarrow> time"

section \<open>Pipeline run bookkeeping\<close>

text \<open>\<open>INSERT INTO pipeline_runs ... RETURNING run_id\<close>: the new row gets a fresh id. The
  statement has a RETURNING clause, so \<open>execute_query\<close> does not commit it.\<close>

definition create_pipeline_run :: "db \<Rightarrow> time \<Rightarrow> string \<Rightarrow> db \<times> nat" where
  "create_pipeline_run c now src =
     (let new_id = Suc (fold max (map run_id (pipeline_runs (working c))) 0);
          row = \<lparr>run_id = new_id, pipeline_name = ''multi_source_ingestion'',
                 source_type = src, status = ''running'', start_time = now,
                 end_time = None, records_extracted = None, records_loaded = None,
                 error_message = None\<rparr>
      in (c\<lparr>working := (working c)\<lparr>pipeline_runs := pipeline_runs (working c) @ [row]\<rparr>\<rparr>,
          new_id))"

text \<open>\<open>update_pipeline_run\<close> of \<open>main.py\<close>: the UPDATE sets the five columns of every row
  with the given \<open>run_id\<close> (of none, when there is no such row) and is committed.\<close>

definition update_pipeline_run ::
  "db \<Rightarrow> time \<Rightarrow> nat \<Rightarrow> string \<Rightarrow> nat \<Rightarrow> nat \<Rightarrow> string option \<Rightarrow> db" where
  "update_pipeline_run c now rid st n_extracted n_loaded msg =
     commit_with
       (\<lambda>t. t\<lparr>pipeline_runs :=
                 map (\<lambda>row. if run_id row = rid
                             then row\<lparr>status := st, end_time := Some now,
                                      records_extracted := Some n_extracted,
                                      records_loaded := Some n_loaded,
                                      error_message := msg\<rparr>
                             else row)
                   (pipeline_runs t)\<rparr>) c"

section \<open>Error log\<close>

fun join :: "string \<Rightarrow> string list \<Rightarrow> string" where
  "join sep [] = []"
| "join sep [x] = x"
| "join sep (x # y # ys) = x @ sep @ join sep (y # ys)"

text \<open>
  \<open>log_validation_errors\<close> of \<open>main.py\<close>: one INSERT per invalid record; an INSERT that
  raises is caught and the loop goes on. \<open>clk i\<close> is the reading of \<open>datetime.now()\<close>
  for the record at position \<open>i\<close>. The stored snapshot is the record itself
  (\<open>json.dumps\<close> is not modelled).
\<close>

fun log_validation_errors ::
  "store \<Rightarrow> (nat \<Rightarrow> time) \<Rightarrow> nat \<Rightarrow> db \<Rightarrow> nat \<Rightarrow> weather_rec invalid_record list \<Rightarrow> db \<times> nat" where
  "log_validation_errors s clk i c rid [] = (c, 0)"
| "log_validation_errors s clk i c rid (invalid # rest) =
     (let entry = \<lparr>err_run_id = rid, err_source_type = ''weather_api'',
                   err_type = ''validation_error'',
                   err_message = join ''; '' (inv_errors invalid),
                   err_raw_data = inv_record invalid, err_created_at = clk i\<rparr>
      in case execute_write (err_accepts s entry)
                (\<lambda>t. t\<lparr>error_log := error_log t @ [entry]\<rparr>) c of
           (c', None) \<Rightarrow>
             (case log_validation_errors s clk (Suc i) c' rid rest of
                (c'', logged_count) \<Rightarrow> (c'', Suc logged_count))
         | (c', Some e) \<Rightarrow> log_validation_errors s clk (Suc i) c' rid rest)"

section \<open>Staging loaders\<close>

text \<open>
  The parameter tuple of the staging INSERT: nine subscripts of the record, evaluated in
  order, so an absent key raises \<open>KeyError\<close> before the statement is sent. The result is
  the row as stored: the nine columns, without a generated timestamp yet.
\<close>

definition staging_params :: "weather_rec \<Rightarrow> exn + weather_rec" where
  "staging_params r =
     bind_exn (subscript ''city'' (city r)) (\<lambda>_.
     bind_exn (subscript ''country'' (country r)) (\<lambda>_.
     bind_exn (subscript ''temperature'' (temperature r)) (\<lambda>_.
     bind_exn (subscript ''feels_like'' (feels_like r)) (\<lambda>_.
     bind_exn (subscript ''humidity'' (humidity r)) (\<lambda>_.
     bind_exn (subscript ''pressure'' (pressure r)) (\<lambda>_.
     bind_exn (subscript ''weather_condition'' (weather_condition r)) (\<lambda>_.
     bind_exn (subscript ''wind_speed'' (wind_speed r)) (\<lambda>_.
     bind_exn (subscript ''raw_data'' (raw_data r)) (\<lambda>_.
       Inr (r\<lparr>extracted_at := Absent\<rparr>))))))))))"

text \<open>The row a staging INSERT adds: a new id and the generated timestamp.\<close>

definition add_staging :: "store \<Rightarrow> weather_rec \<Rightarrow> nat \<Rightarrow> tables \<Rightarrow> tables" where
  "add_staging s row rid t =
     (let new_id = Suc (length (stg_weather_data t)) in
      t\<lparr>stg_weather_data := stg_weather_data t @
           [\<lparr>stg_id = new_id,
             stg_fields = row\<lparr>extracted_at := Val (stg_stamp s new_id)\<rparr>,
             load_id = rid\<rparr>]\<rparr>)"

text \<open>The well-formed staging INSERT of \<open>main.py\<close>, for one record: the store accepts it
  when it accepts the row and the run of \<open>load_id\<close> exists (the foreign key).\<close>

definition insert_staging :: "store \<Rightarrow> db \<Rightarrow> weather_rec \<Rightarrow> nat \<Rightarrow> db \<times> exn option" where
  "insert_staging s c r rid =
     (case staging_params r of
        Inl e \<Rightarrow> (c, Some e)
      | Inr row \<Rightarrow>
          execute_write
            (stg_accepts s row rid \<and> rid \<in> set (map run_id (pipeline_runs (working c))))
            (add_staging s row rid) c)"

text \<open>\<open>load_weather_data\<close> of \<open>main.py\<close>: the \<open>try\<close> is inside the loop and the
  \<open>return\<close> after it.\<close>

fun load_weather_data :: "store \<Rightarrow> db \<Rightarrow> weather_rec list \<Rightarrow> nat \<Rightarrow> db \<times> nat" where
  "load_weather_data s c [] rid = (c, 0)"
| "load_weather_data s c (r # rest) rid =
     (case insert_staging s c r rid of
        (c', None) \<Rightarrow> (case load_weather_data s c' rest rid of
                        (c'', loaded_count) \<Rightarrow> (c'', Suc loaded_count))
      | (c', Some e) \<Rightarrow> load_weather_data s c' rest rid)"

text \<open>
  \<open>WeatherLoader.load\<close> of \<open>weather_loader.py\<close>. Its statement reads \<open>VALUSES\<close> for
  \<open>VALUES\<close>, which no store executes: once the parameters are built, \<open>execute_query\<close>
  raises. The \<open>return\<close> stands inside the loop body, after the \<open>try\<close>: the function
  returns at the end of the first iteration, and on an empty batch it falls off the end
  and returns \<open>None\<close>.
\<close>

definition insert_staging_malformed ::
  "store \<Rightarrow> db \<Rightarrow> weather_rec \<Rightarrow> nat \<Rightarrow> db \<times> exn option" where
  "insert_staging_malformed s c r rid =
     (case staging_params r of
        Inl e \<Rightarrow> (c, Some e)
      | Inr row \<Rightarrow> (rollback c, Some (Error ''syntax error at or near VALUSES'')))"

fun weather_loader_load :: "store \<Rightarrow> db \<Rightarrow> weather_rec list \<Rightarrow> nat \<Rightarrow> db \<times> nat option" where
  "weather_loader_load s c [] rid = (c, None)"
| "weather_loader_load s c (r # rest) rid =
     (case insert_staging_malformed s c r rid of
        (c', None) \<Rightarrow> (c', Some (Suc 0))
      | (c', Some e) \<Rightarrow> (c', Some 0))"

section \<open>WeatherTransformer\<close>

text \<open>
  \<open>get_staging_records\<close>: the rows of the run as the transaction sees them, ordered by
  \<open>extracted_at\<close> (rows with the same timestamp keep their insertion order, and rows
  without a timestamp come last, as NULLs do in ascending order), as dictionaries of the
  selected columns; \<open>raw_data\<close> is not selected.
\<close>

definition stamped :: "stg_row \<Rightarrow> bool" where
  "stamped row = (case extracted_at (stg_fields row) of Val t \<Rightarrow> True | Null \<Rightarrow> False | Absent \<Rightarrow> False)"

definition stamp_of :: "stg_row \<Rightarrow> time" where
  "stamp_of row = (case extracted_at (stg_fields row) of Val t \<Rightarrow> t | Null \<Rightarrow> 0 | Absent \<Rightarrow> 0)"

definition get_staging_records :: "db \<Rightarrow> nat \<Rightarrow> weather_rec list" where
  "get_staging_records c rid =
     (let rows = filter (\<lambda>row. load_id row = rid) (stg_weather_data (working c)) in
      map (\<lambda>row. (stg_fields row)\<lparr>raw_data := Absent\<rparr>)
        (sort_key stamp_of (filter stamped rows) @ filter (\<lambda>row. \<not> stamped row) rows))"

text \<open>
  The upsert statement on the production table: a row with the same
  \<open>(city, country, recorded_at)\<close> gets the seven other columns of the new record;
  without such a row the record is appended. Keys are compared by equality of the three
  components, a \<open>None\<close> component included.
\<close>

definition key_of :: "production_record \<Rightarrow> string \<times> pyval option \<times> time option" where
  "key_of p = (p_city p, p_country p, p_recorded_at p)"

fun upsert :: "production_record \<Rightarrow> production_record list \<Rightarrow> production_record list" where
  "upsert r [] = [r]"
| "upsert r (x # xs) =
     (if key_of x = key_of r
      then x\<lparr>p_temperature := p_temperature r, p_feels_like := p_feels_like r,
             p_humidity := p_humidity r, p_pressure := p_pressure r,
             p_weather_condition := p_weather_condition r,
             p_wind_speed := p_wind_speed r, p_loaded_at := p_loaded_at r\<rparr> # xs
      else x # upsert r xs)"

text \<open>\<open>load_to_production\<close>: one upsert per record; a rejected one is caught.\<close>

fun load_to_production :: "store \<Rightarrow> db \<Rightarrow> production_record list \<Rightarrow> db \<times> nat" where
  "load_to_production s c [] = (c, 0)"
| "load_to_production s c (r # rest) =
     (case execute_write (prod_accepts s r)
             (\<lambda>t. t\<lparr>weather_metrics := upsert r (weather_metrics t)\<rparr>) c of
        (c', None) \<Rightarrow> (case load_to_production s c' rest of
                        (c'', loaded_count) \<Rightarrow> (c'', Suc loaded_count))
      | (c', Some e) \<Rightarrow> load_to_production s c' rest)"

text \<open>The transform loop of \<open>transform_and_load\<close>: a record whose \<open>transform_record\<close>
  raises is logged and left out. \<open>clk i\<close> is the reading of \<open>datetime.now()\<close> for the
  staged record at position \<open>i\<close>.\<close>

fun transform_loop ::
  "py_builtins \<Rightarrow> (nat \<Rightarrow> time) \<Rightarrow> nat \<Rightarrow> weather_rec list \<Rightarrow> production_record list
     \<Rightarrow> production_record list" where
  "transform_loop b clk i [] production_records = production_records"
| "transform_loop b clk i (r # rest) production_records =
     (case transform_record b (clk i) r of
        Inr transformed \<Rightarrow> transform_loop b clk (Suc i) rest (production_records @ [transformed])
      | Inl e \<Rightarrow> transform_loop b clk (Suc i) rest production_records)"

text \<open>\<open>transform_and_load\<close> returns a dictionary, here the list of its items.\<close>

definition transform_and_load ::
  "py_builtins \<Rightarrow> store \<Rightarrow> (nat \<Rightarrow> time) \<Rightarrow> db \<Rightarrow> nat \<Rightarrow> db \<times> (string \<times> nat) list" where
  "transform_and_load b s clk c rid =
     (let staging_records = get_staging_records c rid in
      if staging_records = [] then (c, [(''transformed_count'', 0), (''loaded_count'', 0)])
      else
        let production_records = transform_loop b clk 0 staging_records []
        in (case load_to_production s c production_records of
              (c', loaded_count) \<Rightarrow>
                (c', [(''records_transformed'', length production_records),
                      (''records_loaded'', loaded_count)])))"

section \<open>Orchestration\<close>

text \<open>\<open>stats[key]\<close> on the returned dictionary.\<close>

definition dict_get :: "(string \<times> nat) list \<Rightarrow> string \<Rightarrow> exn + nat" where
  "dict_get stats k = (case map_of stats k of None \<Rightarrow> Inl (KeyError k) | Some v \<Rightarrow> Inr v)"

text \<open>\<open>transform_to_production\<close> of \<open>main.py\<close> reads both counts of the result for its
  log lines before it returns the dictionary.\<close>

definition transform_to_production ::
  "py_builtins \<Rightarrow> store \<Rightarrow> (nat \<Rightarrow> time) \<Rightarrow> db \<Rightarrow> nat
     \<Rightarrow> db \<times> (exn + (string \<times> nat) list)" where
  "transform_to_production b s clk c rid =
     (case transform_and_load b s clk c rid of
        (c', stats) \<Rightarrow>
          (c', bind_exn (dict_get stats ''records_transformed'') (\<lambda>_.
               bind_exn (dict_get stats ''records_loaded'') (\<lambda>_. Inr stats))))"

text \<open>
  What a run takes from outside the program: the store's rules, the Python builtins,
  whether the connection is established, the result of constructing and running the
  extractor, and the clock readings.
\<close>

record env =
  rules :: store
  builtins :: py_builtins
  connects :: bool
  extractor_run :: "exn + weather_rec list"
  now_start :: time
  now_logged :: "nat \<Rightarrow> time"
  now_transformed :: "nat \<Rightarrow> time"
  now_end :: time

text \<open>The inner \<open>try\<close> block of \<open>run_weather_extraction\<close>: the connection as the block
  leaves it, and the exception when it raises.\<close>

definition run_steps :: "env \<Rightarrow> db \<Rightarrow> nat \<Rightarrow> db \<times> exn option" where
  "run_steps e c rid =
     (case extractor_run e of
        Inl ex \<Rightarrow> (c, Some ex)
      | Inr records \<Rightarrow>
          (case validate_batch (render (builtins e)) records of
             Inl ex \<Rightarrow> (c, Some ex)
           | Inr validation_results \<Rightarrow>
               let c1 = (if invalid_count validation_results > 0
                         then fst (log_validation_errors (rules e) (now_logged e) 0 c rid
                                     (invalid_records validation_results))
                         else c)
               in (case load_weather_data (rules e) c1 (valid_records validation_results) rid of
                     (c2, loaded_count) \<Rightarrow>
                       (case transform_to_production (builtins e) (rules e)
                               (now_transformed e) c2 rid of
                          (c3, Inl ex) \<Rightarrow> (c3, Some ex)
                        | (c3, Inr transform_stats) \<Rightarrow>
                            (let st = (if invalid_count validation_results = 0
                                       then ''success'' else ''partial'')
                             in (update_pipeline_run c3 (now_end e) rid st
                                   (length records) loaded_count None, None))))))"

text \<open>
  \<open>run_weather_extraction\<close> on a store: the connection is opened on it, and the result
  is the store as the closed connection leaves it (what was committed) with the exit
  status of the process (\<open>sys.exit(1)\<close> in the outer handler, 0 when the function
  returns).
\<close>

definition run_weather_extraction :: "env \<Rightarrow> tables \<Rightarrow> tables \<times> nat" where
  "run_weather_extraction e d =
     (if \<not> connects e then (d, 1)
      else
        (case create_pipeline_run (connect d) (now_start e) ''weather_api'' of
           (c1, rid) \<Rightarrow>
             (case run_steps e c1 rid of
                (c2, None) \<Rightarrow> (committed c2, 0)
              | (c2, Some ex) \<Rightarrow>
                  (committed (update_pipeline_run c2 (now_end e) rid ''failed'' 0 0
                                (Some (str_exn ex))), 1))))"

section \<open>The rules in the spec's words\<close>

text \<open>
  The four range rules as the spec words them, on a value: temperature in [-50, 60],
  humidity in [0, 100], pressure in [900, 1100], wind speed at least 0. NaN is in no
  range, an infinity in none that is bounded on its side, and a string is no number.
\<close>

definition in_range :: "int \<Rightarrow> pyval \<Rightarrow> int \<Rightarrow> bool" where
  "in_range lo v hi =
     (case v of
        PInt i \<Rightarrow> lo \<le> i \<and> i \<le> hi
      | PFloat x \<Rightarrow> of_int lo \<le> x \<and> x \<le> of_int hi
      | PosInf \<Rightarrow> False
      | NegInf \<Rightarrow> False
      | NaN \<Rightarrow> False
      | PStr s \<Rightarrow> False)"

definition at_least :: "int \<Rightarrow> pyval \<Rightarrow> bool" where
  "at_least lo v =
     (case v of
        PInt i \<Rightarrow> lo \<le> i
      | PFloat x \<Rightarrow> of_int lo \<le> x
      | PosInf \<Rightarrow> True
      | NegInf \<Rightarrow> False
      | NaN \<Rightarrow> False
      | PStr s \<Rightarrow> False)"

definition is_number :: "pyval \<Rightarrow> bool" where
  "is_number v = (case v of PStr s \<Rightarrow> False | _ \<Rightarrow> True)"

text \<open>
  The staged records \<open>transform_record\<close> is about: city and condition are strings,
  temperature, feels-like and wind speed are numbers, and the keys of the fields that
  are passed through are present. Rounding to one decimal place, on a number: a finite
  \<open>float\<close> goes to the nearest tenth, any other number stays.
\<close>

definition holds_str :: "pyval field \<Rightarrow> bool" where
  "holds_str v = (case v of Val (PStr s) \<Rightarrow> True | _ \<Rightarrow> False)"

definition holds_number :: "pyval field \<Rightarrow> bool" where
  "holds_number v = (case v of Val x \<Rightarrow> is_number x | _ \<Rightarrow> False)"

definition present :: "'a field \<Rightarrow> bool" where
  "present v = (case v of Absent \<Rightarrow> False | _ \<Rightarrow> True)"

definition transformable :: "weather_rec \<Rightarrow> bool" where
  "transformable r =
     (holds_str (city r) \<and> holds_str (weather_condition r)
      \<and> holds_number (temperature r) \<and> holds_number (feels_like r)
      \<and> holds_number (wind_speed r)
      \<and> present (country r) \<and> present (humidity r) \<and> present (pressure r)
      \<and> present (extracted_at r))"

definition one_decimal :: "pyval \<Rightarrow> pyval" where
  "one_decimal v = (case v of PFloat x \<Rightarrow> PFloat (round1 x) | _ \<Rightarrow> v)"

text \<open>What a record validator says of a record: whether it returns, and what.\<close>

definition raises :: "('r \<Rightarrow> exn + bool \<times> string list) \<Rightarrow> 'r \<Rightarrow> bool" where
  "raises v r = (case v r of Inl e \<Rightarrow> True | Inr res \<Rightarrow> False)"

definition accepted :: "('r \<Rightarrow> exn + bool \<times> string list) \<Rightarrow> 'r \<Rightarrow> bool" where
  "accepted v r = (case v r of Inl e \<Rightarrow> False | Inr (ok, errors) \<Rightarrow> ok)"

definition rejected :: "('r \<Rightarrow> exn + bool \<times> string list) \<Rightarrow> 'r \<Rightarrow> bool" where
  "rejected v r = (case v r of Inl e \<Rightarrow> False | Inr (ok, errors) \<Rightarrow> \<not> ok)"

definition errors_of :: "('r \<Rightarrow> exn + bool \<times> string list) \<Rightarrow> 'r \<Rightarrow> string list" where
  "errors_of v r = (case v r of Inl e \<Rightarrow> [] | Inr (ok, errors) \<Rightarrow> errors)"

text \<open>The exception a result stands for, if any.\<close>

definition raised :: "exn + 'a \<Rightarrow> exn option" where
  "raised x = (case x of Inl e \<Rightarrow> Some e | Inr y \<Rightarrow> None)"

section \<open>Example inputs\<close>

text \<open>Concrete parameters and records on which the properties below are evaluated. The
  builtins are stand-ins that agree with Python on the ASCII strings and the integers
  of the examples.\<close>

fun digits :: "nat \<Rightarrow> string" where
  "digits n =
     (if n < 10 then [char_of (48 + n)] else digits (n div 10) @ [char_of (48 + n mod 10)])"

declare digits.simps [simp del]

definition fmt0 :: "pyval \<Rightarrow> string" where
  "fmt0 v =
     (case v of
        PInt i \<Rightarrow> (if i < 0 then ''-'' else []) @ digits (nat \<bar>i\<bar>)
      | PFloat x \<Rightarrow> (if x < 0 then ''-'' else []) @ digits (nat \<lfloor>\<bar>x\<bar>\<rfloor>)
      | PosInf \<Rightarrow> ''inf''
      | NegInf \<Rightarrow> ''-inf''
      | NaN \<Rightarrow> ''nan''
      | PStr s \<Rightarrow> s)"

definition upper_char :: "char \<Rightarrow> char" where
  "upper_char c =
     (let n = (of_char c :: nat) in if 97 \<le> n \<and> n \<le> 122 then char_of (n - 32) else c)"

definition lower_char :: "char \<Rightarrow> char" where
  "lower_char c =
     (let n = (of_char c :: nat) in if 65 \<le> n \<and> n \<le> 90 then char_of (n + 32) else c)"

definition demo_builtins :: py_builtins where
  "demo_builtins =
     \<lparr>render = fmt0,
      str_of = (\<lambda>v. case v of None \<Rightarrow> ''None'' | Some x \<Rightarrow> fmt0 x),
      strptime_ok = (\<lambda>s. s = ''2024-12-01''),
      parse_float = (\<lambda>s. None),
      parse_int = (\<lambda>s. None),
      strip = filter (\<lambda>c. c \<noteq> CHR '' ''),
      str_upper = map upper_char,
      str_lower = map lower_char\<rparr>"

text \<open>Weather records: a null country with an out-of-range temperature; an out-of-range
  temperature and pressure; a valid record; a staged record; a valid record that holds
  \<open>None\<close> for \<open>feels_like\<close>; a valid record and an invalid one with all nine keys, as
  the extractor builds them; a NaN pressure; a string for the temperature.\<close>

definition null_city :: weather_rec where
  "null_city = \<lparr>city = Val (PStr ''NullCity''), country = Null, temperature = Val (PInt 150),
     feels_like = Absent, humidity = Val (PInt 50), pressure = Val (PInt 1013),
     weather_condition = Val (PStr ''Clear''), wind_speed = Val (PFloat 5),
     raw_data = Absent, extracted_at = Absent\<rparr>"

definition bad_city :: weather_rec where
  "bad_city = \<lparr>city = Val (PStr ''BadCity''), country = Val (PStr ''Paraguay''),
     temperature = Val (PInt 150), feels_like = Absent, humidity = Val (PInt 34),
     pressure = Val (PInt 1200), weather_condition = Val (PStr ''Sunny''),
     wind_speed = Val (PFloat (72 / 10)), raw_data = Absent, extracted_at = Absent\<rparr>"

definition encarnacion :: weather_rec where
  "encarnacion = \<lparr>city = Val (PStr ''Encarnacion''), country = Val (PStr ''Paraguay''),
     temperature = Val (PFloat (351 / 10)), feels_like = Val (PFloat (338 / 10)),
     humidity = Val (PInt 34), pressure = Val (PInt 1006),
     weather_condition = Val (PStr ''Sunny''), wind_speed = Val (PFloat (72 / 10)),
     raw_data = Val ''{}'', extracted_at = Absent\<rparr>"

definition asuncion :: weather_rec where
  "asuncion = \<lparr>city = Val (PStr ''asuncion''), country = Val (PStr ''PY''),
     temperature = Val (PFloat (3512 / 100)), feels_like = Val (PFloat (675 / 20)),
     humidity = Val (PInt 34), pressure = Val (PInt 1006),
     weather_condition = Val (PStr ''Sunny''), wind_speed = Val (PFloat (72 / 10)),
     raw_data = Val ''{}'', extracted_at = Val 7\<rparr>"

definition no_feels_like :: weather_rec where
  "no_feels_like = \<lparr>city = Val (PStr ''Pilar''), country = Val (PStr ''PY''),
     temperature = Val (PInt 25), feels_like = Null, humidity = Val (PInt 50),
     pressure = Val (PInt 1013), weather_condition = Val (PStr ''Clear''),
     wind_speed = Val (PFloat 5), raw_data = Val ''{}'', extracted_at = Absent\<rparr>"

definition luque :: weather_rec where
  "luque = \<lparr>city = Val (PStr ''Luque''), country = Val (PStr ''Paraguay''),
     temperature = Val (PFloat (284 / 10)), feels_like = Val (PFloat (301 / 10)),
     humidity = Val (PInt 62), pressure = Val (PInt 1009),
     weather_condition = Val (PStr ''partly cloudy''), wind_speed = Val (PFloat (112 / 10)),
     raw_data = Val ''{}'', extracted_at = Absent\<rparr>"

definition heatwave :: weather_rec where
  "heatwave = luque\<lparr>city := Val (PStr ''Limpio''), temperature := Val (PInt 150)\<rparr>"

definition nan_pressure :: weather_rec where
  "nan_pressure = encarnacion\<lparr>pressure := Val NaN\<rparr>"

definition hot :: weather_rec where
  "hot = encarnacion\<lparr>temperature := Val (PStr ''hot'')\<rparr>"

text \<open>CSV records: the two of the self-test of \<open>csv_validator.py\<close>, and a row whose
  quantity is the \<open>float\<close> infinity (as \<open>pandas\<close> reads the cell \<open>inf\<close>).\<close>

definition csv_row2 :: csv_record where
  "csv_row2 = \<lparr>source_file = ''test.csv'', row_number = 2,
     data = Some (map_of [(''date'', Some (PStr ''2024-12-01'')),
       (''product'', Some (PStr ''Laptop'')), (''category'', Some (PStr ''Electronics'')),
       (''amount'', Some (PFloat (120050 / 100))), (''quantity'', Some (PInt 2)),
       (''region'', Some (PStr ''Asuncion''))])\<rparr>"

definition csv_row3 :: csv_record where
  "csv_row3 = \<lparr>source_file = ''test.csv'', row_number = 3,
     data = Some (map_of [(''date'', Some (PStr ''invalid-date'')),
       (''product'', Some (PStr ''Mouse'')), (''category'', Some (PStr [])),
       (''amount'', Some (PFloat (- 2599 / 100))), (''quantity'', Some (PInt 5)),
       (''region'', Some (PStr ''Encarnacion''))])\<rparr>"

definition csv_inf :: csv_record where
  "csv_inf = \<lparr>source_file = ''test.csv'', row_number = 4,
     data = Some (map_of [(''date'', Some (PStr ''2024-12-01'')),
       (''product'', Some (PStr ''Cable'')), (''category'', Some (PStr ''Electronics'')),
       (''amount'', Some (PFloat 3)), (''quantity'', Some PosInf),
       (''region'', Some (PStr ''Asuncion''))])\<rparr>"

text \<open>Stores, clocks and runs: a store that accepts every row and one that rejects every
  staging row; the empty tables; a run over given extracted records.\<close>

definition accept_all :: store where
  "accept_all = \<lparr>stg_accepts = (\<lambda>r rid. True), err_accepts = (\<lambda>e. True),
     prod_accepts = (\<lambda>p. True), stg_stamp = (\<lambda>i. 10 + i)\<rparr>"

definition reject_staging :: store where
  "reject_staging = accept_all\<lparr>stg_accepts := (\<lambda>r rid. False)\<rparr>"

definition empty_tables :: tables where
  "empty_tables =
     \<lparr>pipeline_runs = [], error_log = [], stg_weather_data = [], weather_metrics = []\<rparr>"

definition empty_db :: db where
  "empty_db = connect empty_tables"

text \<open>The connection after \<open>create_pipeline_run\<close> on the empty tables: run 1 exists in
  the open transaction.\<close>

definition run_db :: db where
  "run_db = fst (create_pipeline_run empty_db 1 ''weather_api'')"

definition clk0 :: "nat \<Rightarrow> time" where
  "clk0 i = 100 + i"

definition clk1 :: "nat \<Rightarrow> time" where
  "clk1 i = 500 + i"

definition demo_env :: "store \<Rightarrow> weather_rec list \<Rightarrow> env" where
  "demo_env s records = \<lparr>rules = s, builtins = demo_builtins, connects = True,
     extractor_run = Inr records, now_start = 1, now_logged = clk0,
     now_transformed = clk0, now_end = 200\<rparr>"

section \<open>Views of the connection and of the production table\<close>

text \<open>
  Used to state and prove the properties below. \<open>synced\<close>: the open transaction differs
  from the committed tables at most in the pipeline runs, as it does throughout a run
  (only the uncommitted INSERT of the run row can be pending). \<open>run_inv\<close>: where the
  row of the current run can be, given the rows \<open>P\<close> that were there before: pending,
  committed, or rolled back; a staging row of the run exists only once the run row is
  committed. \<open>table_map\<close> and \<open>put\<close>: the production table as a finite map from keys
  to rows, and the update an upsert makes to it. \<open>unstamped\<close>: a production row without
  regard to its \<open>loaded_at\<close> stamp.
\<close>

definition synced :: "db \<Rightarrow> bool" where
  "synced c =
     (error_log (working c) = error_log (committed c)
      \<and> stg_weather_data (working c) = stg_weather_data (committed c)
      \<and> weather_metrics (working c) = weather_metrics (committed c))"

definition run_inv :: "run_row list \<Rightarrow> run_row \<Rightarrow> nat \<Rightarrow> db \<Rightarrow> bool" where
  "run_inv P row0 rid c =
     (synced c
      \<and> (pipeline_runs (working c) = P @ [row0]
            \<and> (pipeline_runs (committed c) = P \<or> pipeline_runs (committed c) = P @ [row0])
          \<or> pipeline_runs (working c) = P \<and> pipeline_runs (committed c) = P)
      \<and> (filter (\<lambda>row. load_id row = rid) (stg_weather_data (working c)) = []
          \<or> pipeline_runs (committed c) = P @ [row0]))"

definition table_map ::
  "production_record list \<Rightarrow> (string \<times> pyval option \<times> time option) \<rightharpoonup> production_record" where
  "table_map t = map_of (map (\<lambda>x. (key_of x, x)) t)"

definition put ::
  "production_record \<Rightarrow> ((string \<times> pyval option \<times> time option) \<rightharpoonup> production_record)
     \<Rightarrow> ((string \<times> pyval option \<times> time option) \<rightharpoonup> production_record)" where
  "put r m = m(key_of r \<mapsto> r)"

definition unstamped :: "production_record \<Rightarrow> production_record" where
  "unstamped p = p\<lparr>p_loaded_at := 0\<rparr>"

text \<open>A finished run; a connection on tables that hold it with two staged records of
  it, one of them with the key of a production row that is there already; a second
  production row with a new key; and tables with the finished run and one staged record.\<close>

definition first_run :: run_row where
  "first_run = \<lparr>run_id = 1, pipeline_name = ''multi_source_ingestion'',
     source_type = ''weather_api'', status = ''success'', start_time = 1,
     end_time = Some 2, records_extracted = Some 2, records_loaded = Some 2,
     error_message = None\<rparr>"

definition old_row :: production_record where
  "old_row = \<lparr>p_city = ''ASUNCION'', p_country = Some (PStr ''PY''),
     p_temperature = PInt 20, p_feels_like = PInt 21, p_humidity = Some (PInt 40),
     p_pressure = Some (PInt 1000), p_weather_condition = ''cloudy'',
     p_wind_speed = PInt 3, p_recorded_at = Some 7, p_loaded_at = 50\<rparr>"

definition new_row :: production_record where
  "new_row = old_row\<lparr>p_city := ''PILAR'', p_temperature := PInt 30\<rparr>"

definition staged_db :: db where
  "staged_db = connect \<lparr>pipeline_runs = [first_run], error_log = [],
     stg_weather_data =
       [\<lparr>stg_id = 1, stg_fields = asuncion, load_id = 1\<rparr>,
        \<lparr>stg_id = 2, stg_fields = encarnacion\<lparr>extracted_at := Val 8\<rparr>, load_id = 1\<rparr>],
     weather_metrics = [old_row]\<rparr>"

definition prior_tables :: tables where
  "prior_tables = \<lparr>pipeline_runs = [first_run], error_log = [],
     stg_weather_data = [\<lparr>stg_id = 1, stg_fields = asuncion, load_id = 1\<rparr>],
     weather_metrics = []\<rparr>"

section \<open>Properties of validate\_record\<close>

lemma foldl_collect:
  "foldl (\<lambda>errors f. if P f then errors @ [g f] else errors) acc fs = acc @ map g (filter P fs)"
  by (induction fs arbitrary: acc) auto

lemma required_check_eq:
  "required_check r = map missing_message (filter (missing r) required_fields)"
  unfolding required_check_def by (simp add: foldl_collect)

lemma required_check_empty_iff:
  "required_check r = [] \<longleftrightarrow> (\<forall>f\<in>set required_fields. \<not> missing r f)"
  by (simp add: required_check_eq filter_empty_conv)




lemma chained_number:
  "is_number v \<Longrightarrow> chained lo v hi = Inr (in_range lo v hi)"
  by (cases v) (auto simp: chained_def int_le_def le_int_def bind_exn_def in_range_def is_number_def)

lemma lt_int_number:
  "is_number v \<Longrightarrow> v \<noteq> NaN \<Longrightarrow> lt_int v lo = Inr (\<not> at_least lo v)"
  by (cases v) (auto simp: lt_int_def at_least_def is_number_def)

lemma outside_number:
  "is_number v \<Longrightarrow> v \<noteq> NaN \<Longrightarrow> lo \<le> hi \<Longrightarrow> outside v lo hi = Inr (\<not> in_range lo v hi)"
  by (cases v) (auto simp: outside_def lt_int_def gt_int_def bind_exn_def in_range_def is_number_def)

text \<open>
  C4 (as amended). When all six required fields are present and non-null, and
  temperature, humidity, wind speed and pressure hold numbers, wind speed and pressure
  other than NaN, \<open>validate_record\<close> returns, and it has run the four range checks
  independently of each other: the error list is the concatenation of one message per
  violated rule (temperature in [-50, 60], humidity in [0, 100], wind speed at least 0,
  pressure in [900, 1100]), so its length is the number of violated rules, and
  \<open>is_valid\<close> holds exactly when the list is empty. As stated for every record with the
  six fields present the claim fails: a NaN pressure is in no range and gets no message
  (\<open>pressure < 900 or pressure > 1100\<close> is false on NaN), and a string for the
  temperature makes the comparison raise \<open>TypeError\<close>.
\<close>

theorem validate_record_range_checks:
  assumes "\<forall>f\<in>set required_fields. \<not> missing r f"
    and "temperature r = Val t" and "humidity r = Val h"
    and "wind_speed r = Val w" and "pressure r = Val p"
    and "is_number t" and "is_number h" and "is_number w" and "is_number p"
    and "w \<noteq> NaN" and "p \<noteq> NaN"
  shows "validate_record fmt r =
           Inr ((if in_range (- 50) t 60 then [] else [temperature_message fmt t])
                @ (if in_range 0 h 100 then [] else [humidity_message fmt h])
                @ (if at_least 0 w then [] else [wind_message fmt w])
                @ (if in_range 900 p 1100 then [] else [pressure_message fmt p]) = [],
                (if in_range (- 50) t 60 then [] else [temperature_message fmt t])
                @ (if in_range 0 h 100 then [] else [humidity_message fmt h])
                @ (if at_least 0 w then [] else [wind_message fmt w])
                @ (if in_range 900 p 1100 then [] else [pressure_message fmt p]))
         \<and> length (errors_of (validate_record fmt) r) =
              (if in_range (- 50) t 60 then 0 else 1) + (if in_range 0 h 100 then 0 else 1)
              + (if at_least 0 w then 0 else 1) + (if in_range 900 p 1100 then 0 else 1)
         \<and> accepted (validate_record fmt) r = (errors_of (validate_record fmt) r = [])"
proof -
  from assms(1) have e: "required_check r = []"
    by (simp add: required_check_empty_iff)
  have v: "validate_record fmt r =
           Inr ((if in_range (- 50) t 60 then [] else [temperature_message fmt t])
                @ (if in_range 0 h 100 then [] else [humidity_message fmt h])
                @ (if at_least 0 w then [] else [wind_message fmt w])
                @ (if in_range 900 p 1100 then [] else [pressure_message fmt p]) = [],
                (if in_range (- 50) t 60 then [] else [temperature_message fmt t])
                @ (if in_range 0 h 100 then [] else [humidity_message fmt h])
                @ (if at_least 0 w then [] else [wind_message fmt w])
                @ (if in_range 900 p 1100 then [] else [pressure_message fmt p]))"
    using e assms(2-11)
    by (simp add: validate_record_def Let_def range_check_def bind_exn_def
        chained_number lt_int_number outside_number)
  show ?thesis
    unfolding errors_of_def accepted_def v by simp
qed

theorem validate_record_range_checks_witness:
  "(\<exists>f\<in>set required_fields. missing bad_city f) = False
   \<and> validate_record fmt0 bad_city =
       Inr (False, [temperature_message fmt0 (PInt 150), pressure_message fmt0 (PInt 1200)])
   \<and> length (errors_of (validate_record fmt0) bad_city) = 2"
proof -
  have h: "\<forall>f\<in>set required_fields. \<not> missing bad_city f"
    by (simp add: bad_city_def required_fields_def missing_def unset_def)
  have f: "temperature bad_city = Val (PInt 150)" "humidity bad_city = Val (PInt 34)"
    "wind_speed bad_city = Val (PFloat (72 / 10))" "pressure bad_city = Val (PInt 1200)"
    by (simp_all add: bad_city_def)
  have n: "is_number (PInt 150)" "is_number (PInt 34)" "is_number (PFloat (72 / 10))"
    "is_number (PInt 1200)" "PFloat (72 / 10) \<noteq> NaN" "PInt 1200 \<noteq> NaN"
    by (simp_all add: is_number_def)
  have r: "\<not> in_range (- 50) (PInt 150) 60" "in_range 0 (PInt 34) 100"
    "at_least 0 (PFloat (72 / 10))" "\<not> in_range 900 (PInt 1200) 1100"
    by (simp_all add: in_range_def at_least_def)
  note th = validate_record_range_checks[OF h f n, of fmt0]
  from th r have a: "validate_record fmt0 bad_city =
       Inr (False, [temperature_message fmt0 (PInt 150), pressure_message fmt0 (PInt 1200)])"
    by simp
  from th r have b: "length (errors_of (validate_record fmt0) bad_city) = 2"
    by simp
  from h a b show ?thesis by blast
qed

theorem validate_record_nan_pressure:
  "pressure nan_pressure = Val NaN
   \<and> in_range 900 NaN 1100 = False
   \<and> validate_record fmt0 nan_pressure = Inr (True, [])
   \<and> temperature hot = Val (PStr ''hot'')
   \<and> validate_record fmt0 hot = Inl (TypeError (not_supported ''<='' ''int'' ''str''))"
  by code_simp

section \<open>Properties of validate\_batch\<close>

lemma batch_loop_no_raise:
  "\<forall>r\<in>set rs. \<not> raises v r \<Longrightarrow>
   batch_loop v rs valid invalid =
     Inr (valid @ filter (accepted v) rs,
          invalid @ map (\<lambda>r. \<lparr>inv_record = r, inv_errors = errors_of v r\<rparr>)
                      (filter (rejected v) rs))"
proof (induction rs arbitrary: valid invalid)
  case Nil
  then show ?case by simp
next
  case (Cons r rs)
  from Cons.prems obtain ok es where v: "v r = Inr (ok, es)"
    by (cases "v r") (auto simp: raises_def)
  from Cons.prems have rest: "\<forall>x\<in>set rs. \<not> raises v x" by simp
  show ?case
    using v Cons.IH[OF rest]
    by (simp add: accepted_def rejected_def errors_of_def)
qed

lemma batch_loop_raise:
  "\<forall>x\<in>set pre. \<not> raises v x \<Longrightarrow> v r = Inl e \<Longrightarrow>
   batch_loop v (pre @ r # post) valid invalid = Inl e"
proof (induction pre arbitrary: valid invalid)
  case Nil
  then show ?case by simp
next
  case (Cons x xs)
  from Cons.prems obtain ok es where v: "v x = Inr (ok, es)"
    by (cases "v x") (auto simp: raises_def)
  from Cons.prems have rest: "\<forall>y\<in>set xs. \<not> raises v y" by simp
  show ?case
    using v Cons.IH[OF rest Cons.prems(2)] by simp
qed

lemma partition_count:
  "\<forall>r\<in>set rs. \<not> raises v r \<Longrightarrow>
   length (filter (accepted v) rs) + length (filter (rejected v) rs) = length rs"
proof (induction rs)
  case Nil
  then show ?case by simp
next
  case (Cons r rs)
  from Cons.prems obtain ok es where v: "v r = Inr (ok, es)"
    by (cases "v r") (auto simp: raises_def)
  with Cons show ?case by (simp add: accepted_def rejected_def)
qed

lemma validate_batch_with_no_raise:
  assumes "\<forall>r\<in>set rs. \<not> raises v r"
  shows "validate_batch_with v rs =
     Inr \<lparr>total_records = length rs,
          valid_count = length (filter (accepted v) rs),
          invalid_count = length (filter (rejected v) rs),
          valid_records = filter (accepted v) rs,
          invalid_records = map (\<lambda>r. \<lparr>inv_record = r, inv_errors = errors_of v r\<rparr>)
                              (filter (rejected v) rs)\<rparr>"
  by (simp add: validate_batch_with_def batch_loop_no_raise[OF assms])

lemma validate_batch_with_raise:
  assumes "\<forall>x\<in>set pre. \<not> raises v x" and "v r = Inl e"
  shows "validate_batch_with v (pre @ r # post) = Inl e"
  by (simp add: validate_batch_with_def batch_loop_raise[OF assms])

lemma rejected_not_accepted: "\<not> raises v r \<Longrightarrow> rejected v r = (\<not> accepted v r)"
  by (cases "v r") (auto simp: raises_def rejected_def accepted_def)

text \<open>
  C3 (as amended). For every batch on whose records the record validator returns, of
  weather records and of CSV records alike, the summary of \<open>validate_batch\<close> has
  \<open>total_records = valid_count + invalid_count\<close>; \<open>valid_records\<close> is the sublist of
  the accepted records and \<open>invalid_records\<close> the sublist of the rejected ones, each
  unchanged and paired with its errors, both in input order: every input record is in
  exactly one of the two. When the record validator raises on a record of the batch, none
  before it having raised, \<open>validate_batch\<close> raises the same exception and returns no
  summary. As stated for every list of input records the claim fails: a weather record
  with a string for the temperature, and a CSV record with an infinite quantity, make
  \<open>validate_batch\<close> raise.
\<close>

theorem validate_batch_partition:
  "((\<forall>r\<in>set rs. \<not> raises (validate_record fmt) r) \<longrightarrow>
      validate_batch fmt rs =
        Inr \<lparr>total_records = length rs,
             valid_count = length (filter (accepted (validate_record fmt)) rs),
             invalid_count = length (filter (rejected (validate_record fmt)) rs),
             valid_records = filter (accepted (validate_record fmt)) rs,
             invalid_records =
               map (\<lambda>r. \<lparr>inv_record = r, inv_errors = errors_of (validate_record fmt) r\<rparr>)
                 (filter (rejected (validate_record fmt)) rs)\<rparr>
      \<and> length rs = length (filter (accepted (validate_record fmt)) rs)
                     + length (filter (rejected (validate_record fmt)) rs)
      \<and> (\<forall>r\<in>set rs. rejected (validate_record fmt) r = (\<not> accepted (validate_record fmt) r)))
   \<and> ((\<forall>x\<in>set pre. \<not> raises (validate_record fmt) x) \<and> validate_record fmt r = Inl e \<longrightarrow>
        validate_batch fmt (pre @ r # post) = Inl e)
   \<and> ((\<forall>r\<in>set cs. \<not> raises (csv_validate_record b) r) \<longrightarrow>
      csv_validate_batch b cs =
        Inr \<lparr>total_records = length cs,
             valid_count = length (filter (accepted (csv_validate_record b)) cs),
             invalid_count = length (filter (rejected (csv_validate_record b)) cs),
             valid_records = filter (accepted (csv_validate_record b)) cs,
             invalid_records =
               map (\<lambda>r. \<lparr>inv_record = r, inv_errors = errors_of (csv_validate_record b) r\<rparr>)
                 (filter (rejected (csv_validate_record b)) cs)\<rparr>
      \<and> length cs = length (filter (accepted (csv_validate_record b)) cs)
                     + length (filter (rejected (csv_validate_record b)) cs)
      \<and> (\<forall>r\<in>set cs. rejected (csv_validate_record b) r
                        = (\<not> accepted (csv_validate_record b) r)))
   \<and> ((\<forall>x\<in>set cpre. \<not> raises (csv_validate_record b) x) \<and> csv_validate_record b c = Inl ce \<longrightarrow>
        csv_validate_batch b (cpre @ c # cpost) = Inl ce)"
  unfolding validate_batch_def csv_validate_batch_def
  using validate_batch_with_no_raise[of rs "validate_record fmt"]
    validate_batch_with_no_raise[of cs "csv_validate_record b"]
    validate_batch_with_raise[of pre "validate_record fmt" r e post]
    validate_batch_with_raise[of cpre "csv_validate_record b" c ce cpost]
    partition_count[of rs "validate_record fmt"] partition_count[of cs "csv_validate_record b"]
    rejected_not_accepted[of "validate_record fmt"] rejected_not_accepted[of "csv_validate_record b"]
  by (intro conjI impI ballI) (simp_all only: refl, (elim conjE)?, blast+)

lemma raised_Some: "raised x = Some e \<Longrightarrow> x = Inl e"
  by (cases x) (simp_all add: raised_def)

theorem validate_batch_raises:
  "validate_batch fmt0 [encarnacion, hot]
     = Inl (TypeError (not_supported ''<='' ''int'' ''str''))
   \<and> csv_validate_batch demo_builtins [csv_row2, csv_inf]
     = Inl (OverflowError ''cannot convert float infinity to integer'')"
proof -
  have "raised (validate_batch fmt0 [encarnacion, hot])
      = Some (TypeError (not_supported ''<='' ''int'' ''str''))"
    by code_simp
  moreover have "raised (csv_validate_batch demo_builtins [csv_row2, csv_inf])
      = Some (OverflowError ''cannot convert float infinity to integer'')"
    by code_simp
  ultimately show ?thesis by (simp add: raised_Some)
qed

theorem validate_batch_partition_witness:
  "(\<exists>r\<in>set [encarnacion, bad_city, null_city]. raises (validate_record fmt0) r) = False
   \<and> validate_batch fmt0 [encarnacion, bad_city, null_city] =
       Inr \<lparr>total_records = 3, valid_count = 1, invalid_count = 2,
            valid_records = [encarnacion],
            invalid_records =
              [\<lparr>inv_record = bad_city,
                 inv_errors = [temperature_message fmt0 (PInt 150),
                               pressure_message fmt0 (PInt 1200)]\<rparr>,
               \<lparr>inv_record = null_city, inv_errors = [missing_message ''country'']\<rparr>]\<rparr>
   \<and> validate_batch fmt0 ([encarnacion] @ hot # [bad_city])
       = Inl (TypeError (not_supported ''<='' ''int'' ''str''))
   \<and> csv_validate_batch demo_builtins [csv_row2, csv_row3] =
       Inr \<lparr>total_records = 2, valid_count = 1, invalid_count = 1,
            valid_records = [csv_row2],
            invalid_records =
              [\<lparr>inv_record = csv_row3,
                 inv_errors = [''Missing required field: category'']\<rparr>]\<rparr>
   \<and> csv_validate_batch demo_builtins ([csv_row2] @ csv_inf # [csv_row3])
       = Inl (OverflowError ''cannot convert float infinity to integer'')"
proof -
  have v: "validate_record fmt0 encarnacion = Inr (True, [])"
    "validate_record fmt0 bad_city = Inr (False, [temperature_message fmt0 (PInt 150),
                               pressure_message fmt0 (PInt 1200)])"
    "validate_record fmt0 null_city = Inr (False, [missing_message ''country''])"
    "validate_record fmt0 hot = Inl (TypeError (not_supported ''<='' ''int'' ''str''))"
    by code_simp+
  have c: "csv_validate_record demo_builtins csv_row2 = Inr (True, [])"
    "csv_validate_record demo_builtins csv_row3 = Inr (False, [''Missing required field: category''])"
    "csv_validate_record demo_builtins csv_inf
       = Inl (OverflowError ''cannot convert float infinity to integer'')"
    by code_simp+
  note th = validate_batch_partition[where fmt=fmt0 and rs="[encarnacion, bad_city, null_city]"
      and pre="[encarnacion]" and r=hot and post="[bad_city]"
      and e="TypeError (not_supported ''<='' ''int'' ''str'')"
      and b=demo_builtins and cs="[csv_row2, csv_row3]"
      and cpre="[csv_row2]" and c=csv_inf and cpost="[csv_row3]"
      and ce="OverflowError ''cannot convert float infinity to integer''"]
  have n: "\<forall>r\<in>set [encarnacion, bad_city, null_city]. \<not> raises (validate_record fmt0) r"
    by (simp add: raises_def v)
  have cn: "\<forall>r\<in>set [csv_row2, csv_row3]. \<not> raises (csv_validate_record demo_builtins) r"
    by (simp add: raises_def c)
  have p: "\<forall>x\<in>set [encarnacion]. \<not> raises (validate_record fmt0) x"
    by (simp add: raises_def v)
  have cp: "\<forall>x\<in>set [csv_row2]. \<not> raises (csv_validate_record demo_builtins) x"
    by (simp add: raises_def c)
  from th n have a: "validate_batch fmt0 [encarnacion, bad_city, null_city] =
       Inr \<lparr>total_records = 3, valid_count = 1, invalid_count = 2,
            valid_records = [encarnacion],
            invalid_records =
              [\<lparr>inv_record = bad_city,
                 inv_errors = [temperature_message fmt0 (PInt 150),
                               pressure_message fmt0 (PInt 1200)]\<rparr>,
               \<lparr>inv_record = null_city, inv_errors = [missing_message ''country'']\<rparr>]\<rparr>"
    by (simp add: accepted_def rejected_def errors_of_def v)
  from th cn have b: "csv_validate_batch demo_builtins [csv_row2, csv_row3] =
       Inr \<lparr>total_records = 2, valid_count = 1, invalid_count = 1,
            valid_records = [csv_row2],
            invalid_records =
              [\<lparr>inv_record = csv_row3,
                 inv_errors = [''Missing required field: category'']\<rparr>]\<rparr>"
    by (simp add: accepted_def rejected_def errors_of_def c)
  from th p v(4) have d: "validate_batch fmt0 ([encarnacion] @ hot # [bad_city])
       = Inl (TypeError (not_supported ''<='' ''int'' ''str''))"
    by blast
  from th cp c(3) have f: "csv_validate_batch demo_builtins ([csv_row2] @ csv_inf # [csv_row3])
       = Inl (OverflowError ''cannot convert float infinity to integer'')"
    by blast
  from n a b d f show ?thesis by blast
qed

section \<open>Properties of transform\_record\<close>

lemma round_half_even_near: "\<bar>of_int (round_half_even x) - x\<bar> \<le> 1 / 2"
  unfolding round_half_even_def Let_def
  by (auto simp: abs_if not_less) linarith+

lemma round1_near: "\<bar>round1 x - x\<bar> \<le> 1 / 20"
  using round_half_even_near[of "x * 10"] unfolding round1_def
  by (simp add: abs_if field_simps split: if_splits)

lemma round1_tenths: "\<exists>k::int. round1 x = of_int k / 10"
  unfolding round1_def by blast

lemma py_round_number: "is_number t \<Longrightarrow> py_round (Some t) = Inr (one_decimal t)"
  by (cases t) (simp_all add: py_round_def one_decimal_def is_number_def)

lemma transform_record_ok:
  assumes "city r = Val (PStr c)" and "weather_condition r = Val (PStr wc)"
    and "temperature r = Val t" and "feels_like r = Val fl" and "wind_speed r = Val ws"
    and "is_number t" and "is_number fl" and "is_number ws"
    and "subscript ''country'' (country r) = Inr co"
    and "subscript ''humidity'' (humidity r) = Inr h"
    and "subscript ''pressure'' (pressure r) = Inr p"
    and "subscript ''extracted_at'' (extracted_at r) = Inr ra"
  shows "transform_record b now r =
           Inr \<lparr>p_city = str_upper b c, p_country = co, p_temperature = one_decimal t,
                p_feels_like = one_decimal fl, p_humidity = h, p_pressure = p,
                p_weather_condition = str_lower b wc, p_wind_speed = one_decimal ws,
                p_recorded_at = ra, p_loaded_at = now\<rparr>"
  using assms
  by (simp add: transform_record_def bind_exn_def subscript_def upper_def lower_def
      py_round_number)

lemma bind_exn_Inr: "bind_exn m f = Inr y \<longleftrightarrow> (\<exists>x. m = Inr x \<and> f x = Inr y)"
  by (cases m) (simp_all add: bind_exn_def)

lemma upper_Inr: "subscript k v = Inr x \<Longrightarrow> upper b x = Inr c \<Longrightarrow> holds_str v"
  by (cases v; cases x) (auto simp: subscript_def upper_def holds_str_def split: pyval.splits)

lemma lower_Inr: "subscript k v = Inr x \<Longrightarrow> lower b x = Inr c \<Longrightarrow> holds_str v"
  by (cases v; cases x) (auto simp: subscript_def lower_def holds_str_def split: pyval.splits)

lemma round_Inr: "subscript k v = Inr x \<Longrightarrow> py_round x = Inr c \<Longrightarrow> holds_number v"
  by (cases v; cases x)
     (auto simp: subscript_def py_round_def holds_number_def is_number_def split: pyval.splits)

lemma subscript_Inr: "subscript k v = Inr x \<Longrightarrow> present v"
  by (cases v) (simp_all add: subscript_def present_def)

lemma transform_record_Inr_transformable:
  assumes "transform_record b now r = Inr p"
  shows "transformable r"
proof -
  from assms obtain x1 c co x3 t x4 fl h pr x7 wc x8 ws ra where
    "subscript ''city'' (city r) = Inr x1" "upper b x1 = Inr c"
    "subscript ''country'' (country r) = Inr co"
    "subscript ''temperature'' (temperature r) = Inr x3" "py_round x3 = Inr t"
    "subscript ''feels_like'' (feels_like r) = Inr x4" "py_round x4 = Inr fl"
    "subscript ''humidity'' (humidity r) = Inr h"
    "subscript ''pressure'' (pressure r) = Inr pr"
    "subscript ''weather_condition'' (weather_condition r) = Inr x7" "lower b x7 = Inr wc"
    "subscript ''wind_speed'' (wind_speed r) = Inr x8" "py_round x8 = Inr ws"
    "subscript ''extracted_at'' (extracted_at r) = Inr ra"
    unfolding transform_record_def bind_exn_Inr by blast
  then show ?thesis
    unfolding transformable_def
    by (intro conjI upper_Inr lower_Inr round_Inr subscript_Inr)
qed

lemma transformable_values:
  assumes "transformable r"
  shows "\<exists>c wc t fl ws co h p ra.
           city r = Val (PStr c) \<and> weather_condition r = Val (PStr wc)
         \<and> temperature r = Val t \<and> feels_like r = Val fl \<and> wind_speed r = Val ws
         \<and> is_number t \<and> is_number fl \<and> is_number ws
         \<and> subscript ''country'' (country r) = Inr co
         \<and> subscript ''humidity'' (humidity r) = Inr h
         \<and> subscript ''pressure'' (pressure r) = Inr p
         \<and> subscript ''extracted_at'' (extracted_at r) = Inr ra"
proof -
  have s: "holds_str v \<Longrightarrow> \<exists>c. v = Val (PStr c)" for v
    by (cases v) (auto simp: holds_str_def split: pyval.splits)
  have n: "holds_number v \<Longrightarrow> \<exists>t. v = Val t \<and> is_number t" for v
    by (cases v) (auto simp: holds_number_def)
  have p: "present v \<Longrightarrow> \<exists>x. subscript k v = Inr x" for v :: "'a field" and k
    by (cases v) (auto simp: present_def subscript_def)
  from assms s[of "city r"] s[of "weather_condition r"] n[of "temperature r"]
    n[of "feels_like r"] n[of "wind_speed r"] p[of "country r" "''country''"]
    p[of "humidity r" "''humidity''"] p[of "pressure r" "''pressure''"]
    p[of "extracted_at r" "''extracted_at''"]
  show ?thesis
    unfolding transformable_def by blast
qed

lemma transform_record_returns_iff:
  "isl (transform_record b now r) \<longleftrightarrow> \<not> transformable r"
proof
  assume "isl (transform_record b now r)"
  show "\<not> transformable r"
  proof
    assume "transformable r"
    from transformable_values[OF this] obtain c wc t fl ws co h p ra where
      "city r = Val (PStr c)" "weather_condition r = Val (PStr wc)"
      "temperature r = Val t" "feels_like r = Val fl" "wind_speed r = Val ws"
      "is_number t" "is_number fl" "is_number ws"
      "subscript ''country'' (country r) = Inr co"
      "subscript ''humidity'' (humidity r) = Inr h"
      "subscript ''pressure'' (pressure r) = Inr p"
      "subscript ''extracted_at'' (extracted_at r) = Inr ra"
      by blast
    from transform_record_ok[OF this, of b now] \<open>isl (transform_record b now r)\<close>
    show False by simp
  qed
next
  assume n: "\<not> transformable r"
  show "isl (transform_record b now r)"
  proof (cases "transform_record b now r")
    case (Inl e)
    then show ?thesis by simp
  next
    case (Inr p)
    from transform_record_Inr_transformable[OF this] n show ?thesis by simp
  qed
qed

text \<open>
  C5 (as amended). For every staged record whose city and weather condition are strings,
  whose temperature, feels-like and wind speed are numbers, and whose country, humidity,
  pressure and extraction timestamp keys are present, \<open>transform_record\<close> returns the
  production record with the city uppercased by \<open>str.upper\<close>, the condition lowercased
  by \<open>str.lower\<close>, the three numbers rounded to one decimal place (a finite \<open>float\<close>
  goes to a multiple of one tenth at most one twentieth away, any other number stays),
  country, humidity and pressure as they are, \<open>recorded_at\<close> the extraction timestamp
  and \<open>loaded_at\<close> the current time; on every other staged record it raises. As stated
  for every staged record the claim fails: on a staged record that holds \<open>None\<close> for
  \<open>feels_like\<close>, which the validator accepts, the function raises \<open>TypeError\<close>.
\<close>

theorem transform_record_normalizes:
  "(city r = Val (PStr c) \<and> weather_condition r = Val (PStr wc)
      \<and> temperature r = Val t \<and> feels_like r = Val fl \<and> wind_speed r = Val ws
      \<and> is_number t \<and> is_number fl \<and> is_number ws
      \<and> subscript ''country'' (country r) = Inr co
      \<and> subscript ''humidity'' (humidity r) = Inr h
      \<and> subscript ''pressure'' (pressure r) = Inr p
      \<and> subscript ''extracted_at'' (extracted_at r) = Inr ra
    \<longrightarrow> transformable r
        \<and> transform_record b now r =
            Inr \<lparr>p_city = str_upper b c, p_country = co, p_temperature = one_decimal t,
                 p_feels_like = one_decimal fl, p_humidity = h, p_pressure = p,
                 p_weather_condition = str_lower b wc, p_wind_speed = one_decimal ws,
                 p_recorded_at = ra, p_loaded_at = now\<rparr>)
   \<and> (transformable r \<longrightarrow>
        (\<exists>c wc t fl ws co h p ra.
           city r = Val (PStr c) \<and> weather_condition r = Val (PStr wc)
         \<and> temperature r = Val t \<and> feels_like r = Val fl \<and> wind_speed r = Val ws
         \<and> is_number t \<and> is_number fl \<and> is_number ws
         \<and> subscript ''country'' (country r) = Inr co
         \<and> subscript ''humidity'' (humidity r) = Inr h
         \<and> subscript ''pressure'' (pressure r) = Inr p
         \<and> subscript ''extracted_at'' (extracted_at r) = Inr ra))
   \<and> (\<not> transformable r \<longrightarrow> isl (transform_record b now r))
   \<and> one_decimal (PFloat x) = PFloat (round1 x)
   \<and> \<bar>round1 x - x\<bar> \<le> 1 / 20 \<and> (\<exists>k::int. round1 x = of_int k / 10)
   \<and> one_decimal (PInt i) = PInt i \<and> one_decimal PosInf = PosInf
   \<and> one_decimal NegInf = NegInf \<and> one_decimal NaN = NaN"
proof -
  have a: "city r = Val (PStr c) \<and> weather_condition r = Val (PStr wc)
      \<and> temperature r = Val t \<and> feels_like r = Val fl \<and> wind_speed r = Val ws
      \<and> is_number t \<and> is_number fl \<and> is_number ws
      \<and> subscript ''country'' (country r) = Inr co
      \<and> subscript ''humidity'' (humidity r) = Inr h
      \<and> subscript ''pressure'' (pressure r) = Inr p
      \<and> subscript ''extracted_at'' (extracted_at r) = Inr ra
    \<longrightarrow> transformable r
        \<and> transform_record b now r =
            Inr \<lparr>p_city = str_upper b c, p_country = co, p_temperature = one_decimal t,
                 p_feels_like = one_decimal fl, p_humidity = h, p_pressure = p,
                 p_weather_condition = str_lower b wc, p_wind_speed = one_decimal ws,
                 p_recorded_at = ra, p_loaded_at = now\<rparr>"
  proof (intro impI conjI)
    assume h: "city r = Val (PStr c) \<and> weather_condition r = Val (PStr wc)
      \<and> temperature r = Val t \<and> feels_like r = Val fl \<and> wind_speed r = Val ws
      \<and> is_number t \<and> is_number fl \<and> is_number ws
      \<and> subscript ''country'' (country r) = Inr co
      \<and> subscript ''humidity'' (humidity r) = Inr h
      \<and> subscript ''pressure'' (pressure r) = Inr p
      \<and> subscript ''extracted_at'' (extracted_at r) = Inr ra"
    then show "transform_record b now r =
            Inr \<lparr>p_city = str_upper b c, p_country = co, p_temperature = one_decimal t,
                 p_feels_like = one_decimal fl, p_humidity = h, p_pressure = p,
                 p_weather_condition = str_lower b wc, p_wind_speed = one_decimal ws,
                 p_recorded_at = ra, p_loaded_at = now\<rparr>"
      by (intro transform_record_ok) simp_all
    then have "\<not> isl (transform_record b now r)" by simp
    then show "transformable r" by (simp add: transform_record_returns_iff)
  qed
  have b: "transformable r \<longrightarrow>
        (\<exists>c wc t fl ws co h p ra.
           city r = Val (PStr c) \<and> weather_condition r = Val (PStr wc)
         \<and> temperature r = Val t \<and> feels_like r = Val fl \<and> wind_speed r = Val ws
         \<and> is_number t \<and> is_number fl \<and> is_number ws
         \<and> subscript ''country'' (country r) = Inr co
         \<and> subscript ''humidity'' (humidity r) = Inr h
         \<and> subscript ''pressure'' (pressure r) = Inr p
         \<and> subscript ''extracted_at'' (extracted_at r) = Inr ra)"
    using transformable_values[of r] by blast
  have c: "\<not> transformable r \<longrightarrow> isl (transform_record b now r)"
    by (simp add: transform_record_returns_iff)
  have d: "one_decimal (PFloat x) = PFloat (round1 x)" "one_decimal (PInt i) = PInt i"
    "one_decimal PosInf = PosInf" "one_decimal NegInf = NegInf" "one_decimal NaN = NaN"
    by (simp_all add: one_decimal_def)
  from a b c d round1_near[of x] round1_tenths[of x] show ?thesis by blast
qed

theorem transform_record_normalizes_witness:
  "transformable asuncion
   \<and> transform_record demo_builtins 9 asuncion =
     Inr \<lparr>p_city = ''ASUNCION'', p_country = Some (PStr ''PY''),
          p_temperature = PFloat (351 / 10), p_feels_like = PFloat (338 / 10),
          p_humidity = Some (PInt 34), p_pressure = Some (PInt 1006),
          p_weather_condition = ''sunny'', p_wind_speed = PFloat (72 / 10),
          p_recorded_at = Some 7, p_loaded_at = 9\<rparr>
   \<and> transformable (no_feels_like\<lparr>extracted_at := Val 7\<rparr>) = False
   \<and> isl (transform_record demo_builtins 9 (no_feels_like\<lparr>extracted_at := Val 7\<rparr>))"
proof -
  have a: "city asuncion = Val (PStr ''asuncion'') \<and> weather_condition asuncion = Val (PStr ''Sunny'')
      \<and> temperature asuncion = Val (PFloat (3512 / 100))
      \<and> feels_like asuncion = Val (PFloat (675 / 20))
      \<and> wind_speed asuncion = Val (PFloat (72 / 10))
      \<and> is_number (PFloat (3512 / 100)) \<and> is_number (PFloat (675 / 20))
      \<and> is_number (PFloat (72 / 10))
      \<and> subscript ''country'' (country asuncion) = Inr (Some (PStr ''PY''))
      \<and> subscript ''humidity'' (humidity asuncion) = Inr (Some (PInt 34))
      \<and> subscript ''pressure'' (pressure asuncion) = Inr (Some (PInt 1006))
      \<and> subscript ''extracted_at'' (extracted_at asuncion) = Inr (Some 7)"
    by (simp add: asuncion_def subscript_def is_number_def)
  have u: "str_upper demo_builtins ''asuncion'' = ''ASUNCION''" by code_simp
  have l: "str_lower demo_builtins ''Sunny'' = ''sunny''" by code_simp
  have r: "one_decimal (PFloat (3512 / 100)) = PFloat (351 / 10)"
    "one_decimal (PFloat (675 / 20)) = PFloat (338 / 10)"
    "one_decimal (PFloat (72 / 10)) = PFloat (72 / 10)" by code_simp+
  have n: "\<not> transformable (no_feels_like\<lparr>extracted_at := Val 7\<rparr>)"
    by (simp add: transformable_def no_feels_like_def holds_number_def)
  note th = transform_record_normalizes[where r=asuncion and b=demo_builtins and now=9
      and c="''asuncion''" and wc="''Sunny''" and t="PFloat (3512 / 100)"
      and fl="PFloat (675 / 20)" and ws="PFloat (72 / 10)" and co="Some (PStr ''PY'')"
      and h="Some (PInt 34)" and p="Some (PInt 1006)" and ra="Some 7"]
  note th2 = transform_record_normalizes[where r="no_feels_like\<lparr>extracted_at := Val 7\<rparr>"
      and b=demo_builtins and now=9]
  from th a have t1: "transformable asuncion" by blast
  from th a have "transform_record demo_builtins 9 asuncion =
     Inr \<lparr>p_city = str_upper demo_builtins ''asuncion'', p_country = Some (PStr ''PY''),
          p_temperature = one_decimal (PFloat (3512 / 100)),
          p_feels_like = one_decimal (PFloat (675 / 20)),
          p_humidity = Some (PInt 34), p_pressure = Some (PInt 1006),
          p_weather_condition = str_lower demo_builtins ''Sunny'',
          p_wind_speed = one_decimal (PFloat (72 / 10)),
          p_recorded_at = Some 7, p_loaded_at = 9\<rparr>"
    by blast
  then have t2: "transform_record demo_builtins 9 asuncion =
     Inr \<lparr>p_city = ''ASUNCION'', p_country = Some (PStr ''PY''),
          p_temperature = PFloat (351 / 10), p_feels_like = PFloat (338 / 10),
          p_humidity = Some (PInt 34), p_pressure = Some (PInt 1006),
          p_weather_condition = ''sunny'', p_wind_speed = PFloat (72 / 10),
          p_recorded_at = Some 7, p_loaded_at = 9\<rparr>"
    by (simp only: u l r)
  from th2 n have t3: "isl (transform_record demo_builtins 9 (no_feels_like\<lparr>extracted_at := Val 7\<rparr>))"
    by blast
  from t1 t2 n t3 show ?thesis by simp
qed

theorem transform_record_null_feels_like:
  "feels_like (no_feels_like\<lparr>extracted_at := Val 7\<rparr>) = Null
   \<and> validate_record fmt0 no_feels_like = Inr (True, [])
   \<and> transform_record demo_builtins 9 (no_feels_like\<lparr>extracted_at := Val 7\<rparr>)
     = Inl (TypeError (no_round ''NoneType''))"
  by code_simp

lemma validate_record_in_range:
  assumes "city r = Val c" and "country r = Val co"
    and "temperature r = Val t" and "in_range (- 50) t 60"
    and "humidity r = Val h" and "in_range 0 h 100"
    and "pressure r = Val p" and "in_range 900 p 1100"
    and "wind_speed r = Val w" and "at_least 0 w"
  shows "validate_record fmt r = Inr (True, [])"
proof -
  have m: "required_check r = []"
    using assms
    by (simp add: required_check_def required_fields_def missing_def unset_def)
  have n: "is_number t" "is_number h" "is_number p" "is_number w" "w \<noteq> NaN" "p \<noteq> NaN"
    using assms(4,6,8,10)
    by (auto simp: in_range_def at_least_def is_number_def split: pyval.splits)
  show ?thesis
    using m assms n
    by (simp add: validate_record_def Let_def range_check_def bind_exn_def
        chained_number lt_int_number outside_number)
qed

text \<open>
  C10. A record that \<open>validate_record\<close> accepts (all six required fields present and in
  range) but whose \<open>feels_like\<close> or \<open>weather_condition\<close> is absent or null makes
  \<open>transform_record\<close> raise, also in its staged form; the transform loop of
  \<open>transform_and_load\<close> catches the exception and goes on without the record, which
  adds nothing to the production records. Such records exist.
\<close>

theorem valid_record_fails_transform:
  assumes "city r = Val c" and "country r = Val co"
    and "temperature r = Val t" and "in_range (- 50) t 60"
    and "humidity r = Val h" and "in_range 0 h 100"
    and "pressure r = Val p" and "in_range 900 p 1100"
    and "wind_speed r = Val w" and "at_least 0 w"
    and "unset (feels_like r) \<or> unset (weather_condition r)"
  shows "validate_record fmt r = Inr (True, [])
         \<and> isl (transform_record b now (r\<lparr>raw_data := rd, extracted_at := ea\<rparr>))
         \<and> transform_loop b clk i (r\<lparr>raw_data := rd, extracted_at := ea\<rparr> # rest) acc
             = transform_loop b clk (Suc i) rest acc"
proof -
  have v: "validate_record fmt r = Inr (True, [])"
    using assms(1-10) by (rule validate_record_in_range)
  have "\<not> transformable (r\<lparr>raw_data := rd, extracted_at := ea\<rparr>)"
    using assms(11)
    by (auto simp: transformable_def holds_str_def holds_number_def unset_def
        split: field.splits)
  then have t: "isl (transform_record b x (r\<lparr>raw_data := rd, extracted_at := ea\<rparr>))" for x
    by (simp add: transform_record_returns_iff)
  have l: "transform_loop b clk i (r\<lparr>raw_data := rd, extracted_at := ea\<rparr> # rest) acc
             = transform_loop b clk (Suc i) rest acc"
    using t[of "clk i"] by (auto simp: isl_def)
  from v t l show ?thesis by blast
qed

theorem valid_record_fails_transform_witness:
  "validate_record fmt0 no_feels_like = Inr (True, [])
   \<and> isl (transform_record demo_builtins 9
            (no_feels_like\<lparr>raw_data := Absent, extracted_at := Val 11\<rparr>))
   \<and> transform_loop demo_builtins clk0 0
        [no_feels_like\<lparr>raw_data := Absent, extracted_at := Val 11\<rparr>] [] = []
   \<and> snd (run_weather_extraction (demo_env accept_all [no_feels_like]) empty_tables) = 0
   \<and> map (\<lambda>row. (stg_fields row)\<lparr>raw_data := Absent\<rparr>) (stg_weather_data
        (fst (run_weather_extraction (demo_env accept_all [no_feels_like]) empty_tables)))
       = [no_feels_like\<lparr>raw_data := Absent, extracted_at := Val 11\<rparr>]
   \<and> weather_metrics
        (fst (run_weather_extraction (demo_env accept_all [no_feels_like]) empty_tables)) = []
   \<and> error_log
        (fst (run_weather_extraction (demo_env accept_all [no_feels_like]) empty_tables)) = []
   \<and> map status (pipeline_runs
        (fst (run_weather_extraction (demo_env accept_all [no_feels_like]) empty_tables)))
       = [''success'']"
proof -
  have h: "city no_feels_like = Val (PStr ''Pilar'')" "country no_feels_like = Val (PStr ''PY'')"
    "temperature no_feels_like = Val (PInt 25)" "in_range (- 50) (PInt 25) 60"
    "humidity no_feels_like = Val (PInt 50)" "in_range 0 (PInt 50) 100"
    "pressure no_feels_like = Val (PInt 1013)" "in_range 900 (PInt 1013) 1100"
    "wind_speed no_feels_like = Val (PFloat 5)" "at_least 0 (PFloat 5)"
    "unset (feels_like no_feels_like) \<or> unset (weather_condition no_feels_like)"
    by (simp_all add: no_feels_like_def unset_def in_range_def at_least_def)
  note th = valid_record_fails_transform[OF h, where fmt=fmt0 and b=demo_builtins and now=9
      and rd=Absent and ea="Val 11" and clk=clk0 and i=0 and rest="[]" and acc="[]"]
  have a: "validate_record fmt0 no_feels_like = Inr (True, [])" using th by blast
  have b: "isl (transform_record demo_builtins 9
            (no_feels_like\<lparr>raw_data := Absent, extracted_at := Val 11\<rparr>))"
    using th by blast
  have c: "transform_loop demo_builtins clk0 0
        [no_feels_like\<lparr>raw_data := Absent, extracted_at := Val 11\<rparr>] [] = []"
    using th by simp
  have d: "snd (run_weather_extraction (demo_env accept_all [no_feels_like]) empty_tables) = 0"
    by code_simp
  have e: "map (\<lambda>row. (stg_fields row)\<lparr>raw_data := Absent\<rparr>) (stg_weather_data
        (fst (run_weather_extraction (demo_env accept_all [no_feels_like]) empty_tables)))
       = [no_feels_like\<lparr>raw_data := Absent, extracted_at := Val 11\<rparr>]"
    by code_simp
  have f: "weather_metrics
        (fst (run_weather_extraction (demo_env accept_all [no_feels_like]) empty_tables)) = []"
    by code_simp
  have g: "error_log
        (fst (run_weather_extraction (demo_env accept_all [no_feels_like]) empty_tables)) = []"
    by code_simp
  have k: "map status (pipeline_runs
        (fst (run_weather_extraction (demo_env accept_all [no_feels_like]) empty_tables)))
       = [''success'']"
    by code_simp
  from a b c d e f g k show ?thesis by blast
qed

section \<open>Properties of transform\_and\_load on a run without staged records\<close>

lemma transform_and_load_no_staging:
  "get_staging_records c rid = [] \<Longrightarrow>
   transform_and_load b s clk c rid = (c, [(''transformed_count'', 0), (''loaded_count'', 0)])"
  by (simp add: transform_and_load_def)

lemma transform_to_production_no_staging:
  "get_staging_records c rid = [] \<Longrightarrow>
   transform_to_production b s clk c rid = (c, Inl (KeyError ''records_transformed''))"
  by (simp add: transform_to_production_def transform_and_load_no_staging dict_get_def bind_exn_def)

text \<open>
  C6. Without staged records for the run, \<open>transform_and_load\<close> returns a dictionary
  with the keys \<open>transformed_count\<close> and \<open>loaded_count\<close>, not \<open>records_transformed\<close>
  and \<open>records_loaded\<close> as in the non-empty case; it raises nothing itself, but its
  caller \<open>transform_to_production\<close> then raises \<open>KeyError\<close>. Evaluated on a connection
  to the empty tables.
\<close>

theorem transform_and_load_empty_keys:
  "get_staging_records empty_db 1 = []
   \<and> transform_and_load demo_builtins accept_all clk0 empty_db 1
       = (empty_db, [(''transformed_count'', 0), (''loaded_count'', 0)])
   \<and> dict_get (snd (transform_and_load demo_builtins accept_all clk0 empty_db 1))
        ''records_transformed''
       = Inl (KeyError ''records_transformed'')
   \<and> dict_get (snd (transform_and_load demo_builtins accept_all clk0 empty_db 1))
        ''records_loaded''
       = Inl (KeyError ''records_loaded'')
   \<and> transform_to_production demo_builtins accept_all clk0 empty_db 1
       = (empty_db, Inl (KeyError ''records_transformed''))"
proof -
  have g: "get_staging_records empty_db 1 = []"
    by (simp add: get_staging_records_def empty_db_def empty_tables_def connect_def)
  show ?thesis
    using g transform_and_load_no_staging[OF g] transform_to_production_no_staging[OF g]
    by (simp add: dict_get_def)
qed

section \<open>Properties of the staging loaders\<close>

lemma weather_loader_load_first_only:
  "snd (weather_loader_load s c (r # rest) rid) = Some 0
   \<and> weather_loader_load s c (r # rest) rid = weather_loader_load s c [r] rid"
  by (simp add: insert_staging_malformed_def split: sum.splits)

text \<open>
  C7. On a batch of two well-formed records and a store that accepts every row,
  \<open>WeatherLoader.load\<close> persists nothing and returns 0 after the first record, on a
  connection to the empty tables and on one where the run exists alike; on the empty
  batch it returns \<open>None\<close>. On the connection where the run exists,
  \<open>load_weather_data\<close> persists both records and returns 2.
\<close>

theorem weather_loader_load_stops_early:
  "weather_loader_load accept_all empty_db [encarnacion, asuncion] 1 = (empty_db, Some 0)
   \<and> weather_loader_load accept_all empty_db [] 1 = (empty_db, None)
   \<and> snd (weather_loader_load accept_all run_db [encarnacion, asuncion] 1) = Some 0
   \<and> stg_weather_data (working (fst (weather_loader_load accept_all run_db
        [encarnacion, asuncion] 1))) = []
   \<and> snd (load_weather_data accept_all run_db [encarnacion, asuncion] 1) = 2
   \<and> map (\<lambda>row. city (stg_fields row))
        (stg_weather_data (committed (fst (load_weather_data accept_all run_db
           [encarnacion, asuncion] 1))))
       = [Val (PStr ''Encarnacion''), Val (PStr ''asuncion'')]"
  by code_simp

section \<open>Properties of the production upsert\<close>

lemma upsert_overwrite:
  "key_of x = key_of r \<Longrightarrow>
   x\<lparr>p_temperature := p_temperature r, p_feels_like := p_feels_like r,
      p_humidity := p_humidity r, p_pressure := p_pressure r,
      p_weather_condition := p_weather_condition r,
      p_wind_speed := p_wind_speed r, p_loaded_at := p_loaded_at r\<rparr> = r"
  by (cases x, cases r) (simp add: key_of_def)

lemma upsert_eq:
  "upsert r [] = [r]"
  "upsert r (x # xs) = (if key_of x = key_of r then r # xs else x # upsert r xs)"
  by (simp_all add: upsert_overwrite)

declare upsert.simps [simp del]

lemma upsert_present:
  "key_of r \<in> set (map key_of t) \<Longrightarrow> distinct (map key_of t) \<Longrightarrow>
   upsert r t = map (\<lambda>x. if key_of x = key_of r then r else x) t"
proof (induction t)
  case Nil then show ?case by simp
next
  case (Cons x xs)
  show ?case
  proof (cases "key_of x = key_of r")
    case True
    with Cons.prems have "key_of r \<notin> key_of ` set xs" by simp
    then have "\<forall>y\<in>set xs. key_of y \<noteq> key_of r" by (metis image_eqI)
    then have "map (\<lambda>y. if key_of y = key_of r then r else y) xs = xs"
      by (intro map_idI) simp
    with True show ?thesis by (simp add: upsert_eq)
  next
    case False
    with Cons show ?thesis by (simp add: upsert_eq)
  qed
qed

lemma upsert_new:
  "key_of r \<notin> set (map key_of t) \<Longrightarrow> upsert r t = t @ [r]"
  by (induction t) (auto simp: upsert_eq)

lemma keys_upsert:
  "map key_of (upsert r t) =
     (if key_of r \<in> set (map key_of t) then map key_of t else map key_of t @ [key_of r])"
  by (induction t) (auto simp: upsert_eq)

lemma distinct_upsert:
  "distinct (map key_of t) \<Longrightarrow> distinct (map key_of (upsert r t))"
  by (simp add: keys_upsert)

lemma map_of_upsert:
  "map_of (map (\<lambda>x. (key_of x, x)) (upsert r t))
     = (map_of (map (\<lambda>x. (key_of x, x)) t))(key_of r \<mapsto> r)"
  by (induction t) (auto simp: upsert_eq)

lemma table_eqI:
  "distinct (map key_of t) \<Longrightarrow> map key_of t = map key_of t' \<Longrightarrow>
   map_of (map (\<lambda>x. (key_of x, x)) t) = map_of (map (\<lambda>x. (key_of x, x)) t') \<Longrightarrow> t = t'"
proof (induction t arbitrary: t')
  case Nil then show ?case by simp
next
  case (Cons x xs)
  from Cons.prems(2) obtain y ys where t': "t' = y # ys" and k: "key_of x = key_of y"
    and ks: "map key_of xs = map key_of ys"
    by (cases t') auto
  from Cons.prems(3) have "map_of (map (\<lambda>x. (key_of x, x)) (x # xs)) (key_of x)
      = map_of (map (\<lambda>x. (key_of x, x)) t') (key_of x)" by (rule fun_cong)
  with t' k have xy: "x = y" by simp
  have nin: "key_of x \<notin> set (map key_of xs)" using Cons.prems(1) by simp
  have "map_of (map (\<lambda>x. (key_of x, x)) xs) = map_of (map (\<lambda>x. (key_of x, x)) ys)"
  proof
    fix k'
    show "map_of (map (\<lambda>x. (key_of x, x)) xs) k' = map_of (map (\<lambda>x. (key_of x, x)) ys) k'"
    proof (cases "k' = key_of x")
      case True
      have "map_of (map (\<lambda>x. (key_of x, x)) xs) k' = None"
        using nin True by (simp add: map_of_eq_None_iff image_image)
      moreover have "map_of (map (\<lambda>x. (key_of x, x)) ys) k' = None"
        using nin True ks by (simp add: map_of_eq_None_iff image_image)
      ultimately show ?thesis by simp
    next
      case False
      from Cons.prems(3) have "map_of (map (\<lambda>x. (key_of x, x)) (x # xs)) k'
        = map_of (map (\<lambda>x. (key_of x, x)) t') k'" by (rule fun_cong)
      with False t' k show ?thesis by simp
    qed
  qed
  with Cons.IH[of ys] Cons.prems(1) ks have "xs = ys" by simp
  with xy t' show ?case by simp
qed

lemma distinct_fold_upsert:
  "distinct (map key_of t) \<Longrightarrow> distinct (map key_of (fold upsert ps t))"
  by (induction ps arbitrary: t) (auto simp: distinct_upsert)

lemma keys_fold_upsert_present:
  "key_of ` set ps \<subseteq> set (map key_of t) \<Longrightarrow> map key_of (fold upsert ps t) = map key_of t"
proof (induction ps arbitrary: t)
  case Nil then show ?case by simp
next
  case (Cons p ps)
  from Cons.prems have k: "map key_of (upsert p t) = map key_of t"
    by (simp add: keys_upsert)
  with Cons.prems have "key_of ` set ps \<subseteq> set (map key_of (upsert p t))" by simp
  from Cons.IH[OF this] k show ?case by simp
qed

lemma set_keys_fold_upsert:
  "set (map key_of (fold upsert ps t)) = set (map key_of t) \<union> key_of ` set ps"
proof (induction ps arbitrary: t)
  case Nil then show ?case by simp
next
  case (Cons p ps)
  have "set (map key_of (upsert p t)) = insert (key_of p) (set (map key_of t))"
    by (auto simp: keys_upsert)
  with Cons.IH[of "upsert p t"] show ?case by auto
qed

lemma table_map_upsert: "table_map (upsert r t) = put r (table_map t)"
  by (simp add: table_map_def put_def map_of_upsert)

lemma table_map_fold_upsert: "table_map (fold upsert ps t) = fold put ps (table_map t)"
  by (induction ps arbitrary: t) (simp_all add: table_map_upsert)

lemma put_add: "put r m = m ++ put r Map.empty"
  by (simp add: put_def)

lemma fold_put_add: "fold put ps m = m ++ fold put ps Map.empty"
proof (induction ps arbitrary: m)
  case Nil then show ?case by simp
next
  case (Cons p ps)
  have "fold put (p # ps) m = fold put ps (put p m)" by simp
  also have "\<dots> = put p m ++ fold put ps Map.empty" by (rule Cons.IH)
  also have "\<dots> = (m ++ put p Map.empty) ++ fold put ps Map.empty"
    using put_add[of p m] by simp
  also have "\<dots> = m ++ (put p Map.empty ++ fold put ps Map.empty)"
    by (rule map_add_assoc[symmetric])
  also have "put p Map.empty ++ fold put ps Map.empty = fold put ps (put p Map.empty)"
    by (rule Cons.IH[symmetric])
  also have "fold put ps (put p Map.empty) = fold put (p # ps) Map.empty" by simp
  finally show ?case .
qed

lemma map_add_self: "(m ++ n) ++ n = m ++ n"
  by (rule ext) (simp add: map_add_def split: option.splits)

lemma fold_put_twice: "fold put ps (fold put ps m) = fold put ps m"
proof -
  let ?F = "fold put ps Map.empty"
  have b: "fold put ps m = m ++ ?F"
    by (rule fold_put_add)
  have "fold put ps (fold put ps m) = fold put ps m ++ ?F"
    by (rule fold_put_add)
  also have "\<dots> = (m ++ ?F) ++ ?F"
    using b by (rule arg_cong[where f="\<lambda>x. x ++ ?F"])
  also have "\<dots> = m ++ ?F" by (rule map_add_self)
  also have "\<dots> = fold put ps m" by (rule b[symmetric])
  finally show ?thesis .
qed

lemma fold_upsert_idem:
  assumes "distinct (map key_of t)"
  shows "fold upsert ps (fold upsert ps t) = fold upsert ps t"
proof (rule table_eqI)
  show "distinct (map key_of (fold upsert ps (fold upsert ps t)))"
    using assms by (intro distinct_fold_upsert)
  have "key_of ` set ps \<subseteq> set (map key_of (fold upsert ps t))"
    using set_keys_fold_upsert[of ps t] by blast
  then show "map key_of (fold upsert ps (fold upsert ps t)) = map key_of (fold upsert ps t)"
    by (rule keys_fold_upsert_present)
  have "table_map (fold upsert ps (fold upsert ps t)) = table_map (fold upsert ps t)"
    by (simp add: table_map_fold_upsert fold_put_twice)
  then show "map_of (map (\<lambda>x. (key_of x, x)) (fold upsert ps (fold upsert ps t)))
      = map_of (map (\<lambda>x. (key_of x, x)) (fold upsert ps t))"
    by (simp add: table_map_def)
qed

lemma key_of_unstamped: "key_of (unstamped p) = key_of p"
  by (simp add: unstamped_def key_of_def)

lemma map_key_of_unstamped: "map key_of (map unstamped t) = map key_of t"
  by (simp add: key_of_unstamped)

lemma unstamped_upsert: "map unstamped (upsert r t) = upsert (unstamped r) (map unstamped t)"
  by (induction t) (simp_all add: upsert_eq key_of_unstamped)

lemma unstamped_fold_upsert:
  "map unstamped (fold upsert ps t) = fold upsert (map unstamped ps) (map unstamped t)"
  by (induction ps arbitrary: t) (simp_all add: unstamped_upsert)

lemma unstamped_filter:
  assumes "\<forall>p t. prod_accepts s (p\<lparr>p_loaded_at := t\<rparr>) = prod_accepts s p"
  shows "map unstamped (filter (prod_accepts s) ps) = filter (prod_accepts s) (map unstamped ps)"
  using assms by (induction ps) (simp_all add: unstamped_def)

lemma transform_record_clock:
  "transform_record b now r =
     (case transform_record b 0 r of Inl e \<Rightarrow> Inl e | Inr p \<Rightarrow> Inr (p\<lparr>p_loaded_at := now\<rparr>))"
  by (simp add: transform_record_def bind_exn_def split: sum.splits)

lemma unstamped_transform_loop:
  "map unstamped acc = map unstamped acc' \<Longrightarrow>
   map unstamped (transform_loop b clk i rs acc) = map unstamped (transform_loop b clk' j rs acc')"
proof (induction rs arbitrary: i j acc acc')
  case Nil then show ?case by simp
next
  case (Cons r rs)
  show ?case
  proof (cases "transform_record b 0 r")
    case (Inl e)
    then have "transform_record b (clk i) r = Inl e" "transform_record b (clk' j) r = Inl e"
      by (simp_all add: transform_record_clock[of b "clk i"] transform_record_clock[of b "clk' j"])
    then show ?thesis using Cons.IH[OF Cons.prems] by simp
  next
    case (Inr p)
    then have a: "transform_record b (clk i) r = Inr (p\<lparr>p_loaded_at := clk i\<rparr>)"
      and b: "transform_record b (clk' j) r = Inr (p\<lparr>p_loaded_at := clk' j\<rparr>)"
      by (simp_all add: transform_record_clock[of b "clk i"] transform_record_clock[of b "clk' j"])
    have "map unstamped (acc @ [p\<lparr>p_loaded_at := clk i\<rparr>])
        = map unstamped (acc' @ [p\<lparr>p_loaded_at := clk' j\<rparr>])"
    proof -
      have "unstamped (p\<lparr>p_loaded_at := clk i\<rparr>) = unstamped (p\<lparr>p_loaded_at := clk' j\<rparr>)"
        by (simp add: unstamped_def)
      with Cons.prems show ?thesis by simp
    qed
    from Cons.IH[OF this] a b show ?thesis by simp
  qed
qed

section \<open>Properties of the connection during a run\<close>

lemma fold_max_ge: "(a::nat) \<le> fold max xs a"
  by (induction xs arbitrary: a) (auto intro: order_trans[OF max.cobounded2])

lemma fold_max_mem: "x \<in> set xs \<Longrightarrow> (x::nat) \<le> fold max xs a"
proof (induction xs arbitrary: a)
  case Nil then show ?case by simp
next
  case (Cons y ys)
  show ?case
  proof (cases "x = y")
    case True
    have "y \<le> max y a" by simp
    also have "\<dots> \<le> fold max ys (max y a)" by (rule fold_max_ge)
    finally show ?thesis using True by simp
  next
    case False
    with Cons.prems have "x \<in> set ys" by simp
    from Cons.IH[OF this] show ?thesis by simp
  qed
qed

lemma create_pipeline_run_fresh:
  "snd (create_pipeline_run c now src) \<notin> run_id ` set (pipeline_runs (working c))"
proof
  let ?ids = "map run_id (pipeline_runs (working c))"
  assume "snd (create_pipeline_run c now src) \<in> run_id ` set (pipeline_runs (working c))"
  then have "Suc (fold max ?ids 0) \<in> set ?ids"
    by (simp add: create_pipeline_run_def Let_def)
  from fold_max_mem[OF this, of 0] show False by simp
qed

lemma synced_connect: "synced (connect d)"
  by (simp add: synced_def connect_def)

lemma execute_write_cases:
  "execute_write ok f c = (c', res) \<Longrightarrow>
   ok \<and> c' = commit_with f c \<and> res = None \<or> \<not> ok \<and> c' = rollback c \<and> res \<noteq> None"
  by (auto simp: execute_write_def split: if_splits)

lemma run_inv_commit:
  assumes "run_inv P row0 rid c"
    and "pipeline_runs (f (working c)) = pipeline_runs (working c)"
    and "stg_weather_data (f (working c)) = stg_weather_data (working c)"
  shows "run_inv P row0 rid (commit_with f c)"
    and "stg_weather_data (working (commit_with f c)) = stg_weather_data (working c)"
  using assms by (auto simp: run_inv_def synced_def commit_with_def)

lemma run_inv_rollback:
  assumes "run_inv P row0 rid c"
  shows "run_inv P row0 rid (rollback c)"
    and "stg_weather_data (working (rollback c)) = stg_weather_data (working c)"
  using assms by (auto simp: run_inv_def synced_def rollback_def)

lemma run_inv_execute_write:
  assumes "run_inv P row0 rid c"
    and "pipeline_runs (f (working c)) = pipeline_runs (working c)"
    and "stg_weather_data (f (working c)) = stg_weather_data (working c)"
  shows "run_inv P row0 rid (fst (execute_write ok f c))"
    and "stg_weather_data (working (fst (execute_write ok f c))) = stg_weather_data (working c)"
  using run_inv_commit[where f=f, OF assms] run_inv_rollback[OF assms(1)]
  by (simp_all add: execute_write_def)

lemma run_inv_commit_staging:
  assumes "run_inv P row0 rid c"
    and "rid \<in> set (map run_id (pipeline_runs (working c)))"
    and "rid \<notin> run_id ` set P"
  shows "run_inv P row0 rid (commit_with (add_staging s row rid) c)"
proof -
  from assms(1,2,3) have "pipeline_runs (working c) = P @ [row0]"
    by (auto simp: run_inv_def)
  then show ?thesis
    by (simp add: run_inv_def synced_def commit_with_def add_staging_def Let_def)
qed

lemma stg_commit_staging:
  "\<exists>row. stg_weather_data (working (commit_with (add_staging s r rid) c))
           = stg_weather_data (working c) @ [row] \<and> load_id row = rid"
  by (simp add: commit_with_def add_staging_def Let_def)

lemma insert_staging_inv:
  assumes inv: "run_inv P row0 rid c" and fresh: "rid \<notin> run_id ` set P"
    and ins: "insert_staging s c r rid = (c', res)"
  shows "run_inv P row0 rid c'"
    and "res = None \<Longrightarrow> \<exists>row. stg_weather_data (working c')
           = stg_weather_data (working c) @ [row] \<and> load_id row = rid"
    and "res \<noteq> None \<Longrightarrow> stg_weather_data (working c') = stg_weather_data (working c)"
proof -
  show "run_inv P row0 rid c'"
  proof (cases "staging_params r")
    case (Inl e)
    with ins inv show ?thesis by (simp add: insert_staging_def)
  next
    case (Inr row)
    with ins have "execute_write
        (stg_accepts s row rid \<and> rid \<in> set (map run_id (pipeline_runs (working c))))
        (add_staging s row rid) c = (c', res)"
      by (simp add: insert_staging_def)
    from execute_write_cases[OF this] show ?thesis
      using run_inv_commit_staging[OF inv _ fresh] run_inv_rollback(1)[OF inv] by auto
  qed
  show "\<exists>row. stg_weather_data (working c') = stg_weather_data (working c) @ [row]
              \<and> load_id row = rid" if "res = None"
  proof (cases "staging_params r")
    case (Inl e)
    with ins that show ?thesis by (simp add: insert_staging_def)
  next
    case (Inr row)
    with ins have "execute_write
        (stg_accepts s row rid \<and> rid \<in> set (map run_id (pipeline_runs (working c))))
        (add_staging s row rid) c = (c', res)"
      by (simp add: insert_staging_def)
    from execute_write_cases[OF this] that have "c' = commit_with (add_staging s row rid) c"
      by auto
    with stg_commit_staging[of s row rid c] show ?thesis by simp
  qed
  show "stg_weather_data (working c') = stg_weather_data (working c)" if "res \<noteq> None"
  proof (cases "staging_params r")
    case (Inl e)
    with ins show ?thesis by (simp add: insert_staging_def)
  next
    case (Inr row)
    with ins have "execute_write
        (stg_accepts s row rid \<and> rid \<in> set (map run_id (pipeline_runs (working c))))
        (add_staging s row rid) c = (c', res)"
      by (simp add: insert_staging_def)
    from execute_write_cases[OF this] that have "c' = rollback c" by auto
    with run_inv_rollback(2)[OF inv] show ?thesis by simp
  qed
qed

lemma load_weather_data_inv:
  assumes "run_inv P row0 rid c" and "rid \<notin> run_id ` set P"
    and "load_weather_data s c rs rid = (c', n)"
  shows "run_inv P row0 rid c'
         \<and> (\<exists>rows. stg_weather_data (working c') = stg_weather_data (working c) @ rows
                \<and> length rows = n \<and> map load_id rows = replicate n rid)
         \<and> n \<le> length rs"
  using assms
proof (induction rs arbitrary: c c' n)
  case Nil
  then show ?case by simp
next
  case (Cons r rs)
  obtain c1 res where i: "insert_staging s c r rid = (c1, res)"
    by (cases "insert_staging s c r rid")
  note inv1 = insert_staging_inv[OF Cons.prems(1,2) i]
  obtain c2 m where l: "load_weather_data s c1 rs rid = (c2, m)"
    by (cases "load_weather_data s c1 rs rid")
  note ih = Cons.IH[OF inv1(1) Cons.prems(2) l]
  from ih obtain rows where rows: "stg_weather_data (working c2) = stg_weather_data (working c1) @ rows"
    "length rows = m" "map load_id rows = replicate m rid" by blast
  show ?case
  proof (cases res)
    case None
    with Cons.prems(3) i l have e: "c' = c2" "n = Suc m" by simp_all
    from inv1(2)[OF None] obtain row where
      row: "stg_weather_data (working c1) = stg_weather_data (working c) @ [row]" "load_id row = rid"
      by blast
    have "stg_weather_data (working c') = stg_weather_data (working c) @ (row # rows)
        \<and> length (row # rows) = n \<and> map load_id (row # rows) = replicate n rid"
      using e rows row by simp
    then have "\<exists>rows. stg_weather_data (working c') = stg_weather_data (working c) @ rows
                \<and> length rows = n \<and> map load_id rows = replicate n rid" by blast
    with ih e show ?thesis by simp
  next
    case (Some ex)
    with Cons.prems(3) i l have e: "c' = c2" "n = m" by simp_all
    from inv1(3) Some have "stg_weather_data (working c1) = stg_weather_data (working c)" by simp
    with rows e have "stg_weather_data (working c') = stg_weather_data (working c) @ rows
        \<and> length rows = n \<and> map load_id rows = replicate n rid" by simp
    then have "\<exists>rows. stg_weather_data (working c') = stg_weather_data (working c) @ rows
                \<and> length rows = n \<and> map load_id rows = replicate n rid" by blast
    with ih e show ?thesis by simp
  qed
qed

lemma log_validation_errors_inv:
  assumes "run_inv P row0 rid c"
  shows "run_inv P row0 rid (fst (log_validation_errors s clk i c rid' ivs))
         \<and> stg_weather_data (working (fst (log_validation_errors s clk i c rid' ivs)))
             = stg_weather_data (working c)"
  using assms
proof (induction ivs arbitrary: c i)
  case Nil
  then show ?case by simp
next
  case (Cons iv ivs)
  let ?entry = "\<lparr>err_run_id = rid', err_source_type = ''weather_api'',
                   err_type = ''validation_error'',
                   err_message = join ''; '' (inv_errors iv),
                   err_raw_data = inv_record iv, err_created_at = clk i\<rparr>"
  let ?f = "\<lambda>t. t\<lparr>error_log := error_log t @ [?entry]\<rparr>"
  obtain c1 res where w: "execute_write (err_accepts s ?entry) ?f c = (c1, res)"
    by (cases "execute_write (err_accepts s ?entry) ?f c")
  have "run_inv P row0 rid (fst (execute_write (err_accepts s ?entry) ?f c))"
    "stg_weather_data (working (fst (execute_write (err_accepts s ?entry) ?f c)))
       = stg_weather_data (working c)"
    by (rule run_inv_execute_write[where f="?f", OF Cons.prems]; simp)+
  with w have inv1: "run_inv P row0 rid c1"
    and s1: "stg_weather_data (working c1) = stg_weather_data (working c)" by simp_all
  from Cons.IH[OF inv1, of "Suc i"] s1 w show ?case
    by (cases res) (auto simp: Let_def split: prod.splits)
qed

lemma load_to_production_inv:
  assumes "run_inv P row0 rid c"
  shows "run_inv P row0 rid (fst (load_to_production s c ps))
         \<and> stg_weather_data (working (fst (load_to_production s c ps)))
             = stg_weather_data (working c)"
  using assms
proof (induction ps arbitrary: c)
  case Nil
  then show ?case by simp
next
  case (Cons p ps)
  let ?f = "\<lambda>t. t\<lparr>weather_metrics := upsert p (weather_metrics t)\<rparr>"
  obtain c1 res where w: "execute_write (prod_accepts s p) ?f c = (c1, res)"
    by (cases "execute_write (prod_accepts s p) ?f c")
  have "run_inv P row0 rid (fst (execute_write (prod_accepts s p) ?f c))"
    "stg_weather_data (working (fst (execute_write (prod_accepts s p) ?f c)))
       = stg_weather_data (working c)"
    by (rule run_inv_execute_write[where f="?f", OF Cons.prems]; simp)+
  with w have inv1: "run_inv P row0 rid c1"
    and s1: "stg_weather_data (working c1) = stg_weather_data (working c)" by simp_all
  from Cons.IH[OF inv1] s1 w show ?case
    by (cases res) (auto split: prod.splits)
qed

lemma transform_to_production_inv:
  assumes "run_inv P row0 rid c"
  shows "run_inv P row0 rid (fst (transform_to_production b s clk c rid'))
         \<and> stg_weather_data (working (fst (transform_to_production b s clk c rid')))
             = stg_weather_data (working c)"
  using assms load_to_production_inv[OF assms,
      of s "transform_loop b clk 0 (get_staging_records c rid') []"]
  by (auto simp: transform_to_production_def transform_and_load_def Let_def split: prod.splits)

lemma get_staging_records_empty:
  "get_staging_records c rid = []
     \<longleftrightarrow> filter (\<lambda>row. load_id row = rid) (stg_weather_data (working c)) = []"
proof -
  let ?rows = "filter (\<lambda>row. load_id row = rid) (stg_weather_data (working c))"
  have "length (get_staging_records c rid)
      = length (filter stamped ?rows) + length (filter (\<lambda>row. \<not> stamped row) ?rows)"
    by (simp only: get_staging_records_def Let_def length_map length_append length_sort)
  also have "\<dots> = length ?rows"
    by (rule sum_length_filter_compl)
  finally have "length (get_staging_records c rid)
      = length (filter (\<lambda>row. load_id row = rid) (stg_weather_data (working c)))" .
  then show ?thesis by (metis length_0_conv)
qed

lemma transform_to_production_returns:
  "transform_to_production b s clk c rid = (c', Inr stats) \<Longrightarrow>
   filter (\<lambda>row. load_id row = rid) (stg_weather_data (working c)) \<noteq> []"
  using transform_to_production_no_staging[of c rid b s clk] get_staging_records_empty[of c rid]
  by auto

lemma run_steps_returns:
  assumes "run_steps e c rid = (c', None)"
  obtains records vr ca c2 loaded c3 stats where
    "extractor_run e = Inr records"
    "validate_batch (render (builtins e)) records = Inr vr"
    "ca = (if invalid_count vr > 0
           then fst (log_validation_errors (rules e) (now_logged e) 0 c rid (invalid_records vr))
           else c)"
    "load_weather_data (rules e) ca (valid_records vr) rid = (c2, loaded)"
    "transform_to_production (builtins e) (rules e) (now_transformed e) c2 rid = (c3, Inr stats)"
    "c' = update_pipeline_run c3 (now_end e) rid
            (if invalid_count vr = 0 then ''success'' else ''partial'')
            (length records) loaded None"
  using assms
  by (auto simp: run_steps_def Let_def split: sum.splits prod.splits)

section \<open>Properties of the orchestrator\<close>

lemma create_pipeline_run_inv:
  assumes fk: "load_id ` set (stg_weather_data d) \<subseteq> run_id ` set (pipeline_runs d)"
    and cr: "create_pipeline_run (connect d) now src = (c1, rid)"
  shows "run_inv (pipeline_runs d)
           \<lparr>run_id = rid, pipeline_name = ''multi_source_ingestion'',
            source_type = src, status = ''running'', start_time = now,
            end_time = None, records_extracted = None, records_loaded = None,
            error_message = None\<rparr> rid c1"
    and "rid \<notin> run_id ` set (pipeline_runs d)"
    and "stg_weather_data (working c1) = stg_weather_data d"
    and "filter (\<lambda>row. load_id row = rid) (stg_weather_data d) = []"
proof -
  from create_pipeline_run_fresh[of "connect d" now src] cr
  show fresh: "rid \<notin> run_id ` set (pipeline_runs d)"
    by (simp add: connect_def)
  with fk have "rid \<notin> load_id ` set (stg_weather_data d)" by blast
  then have "\<forall>row\<in>set (stg_weather_data d). load_id row \<noteq> rid" by (metis image_eqI)
  then show none: "filter (\<lambda>row. load_id row = rid) (stg_weather_data d) = []"
    by (simp add: filter_empty_conv)
  from cr have c1: "c1 = (connect d)\<lparr>working := (working (connect d))\<lparr>pipeline_runs :=
        pipeline_runs (working (connect d)) @
          [\<lparr>run_id = rid, pipeline_name = ''multi_source_ingestion'',
            source_type = src, status = ''running'', start_time = now,
            end_time = None, records_extracted = None, records_loaded = None,
            error_message = None\<rparr>]\<rparr>\<rparr>"
    by (auto simp: create_pipeline_run_def Let_def)
  show "stg_weather_data (working c1) = stg_weather_data d"
    by (simp add: c1 connect_def)
  show "run_inv (pipeline_runs d)
           \<lparr>run_id = rid, pipeline_name = ''multi_source_ingestion'',
            source_type = src, status = ''running'', start_time = now,
            end_time = None, records_extracted = None, records_loaded = None,
            error_message = None\<rparr> rid c1"
    using none by (simp add: c1 run_inv_def synced_def connect_def)
qed

lemma update_pipeline_run_last:
  assumes "pipeline_runs (working c) = P @ [row0]" and "run_id row0 = rid"
    and "rid \<notin> run_id ` set P"
  shows "pipeline_runs (committed (update_pipeline_run c now rid st n m msg))
           = P @ [row0\<lparr>status := st, end_time := Some now, records_extracted := Some n,
                       records_loaded := Some m, error_message := msg\<rparr>]"
    and "stg_weather_data (committed (update_pipeline_run c now rid st n m msg))
           = stg_weather_data (working c)"
proof -
  from assms(3) have "\<forall>row\<in>set P. run_id row \<noteq> rid" by (metis image_eqI)
  then have "map (\<lambda>row. if run_id row = rid
                             then row\<lparr>status := st, end_time := Some now,
                                      records_extracted := Some n,
                                      records_loaded := Some m,
                                      error_message := msg\<rparr>
                             else row) P = P"
    by (intro map_idI) simp
  with assms(1,2)
  show "pipeline_runs (committed (update_pipeline_run c now rid st n m msg))
           = P @ [row0\<lparr>status := st, end_time := Some now, records_extracted := Some n,
                       records_loaded := Some m, error_message := msg\<rparr>]"
    by (simp add: update_pipeline_run_def commit_with_def)
  show "stg_weather_data (committed (update_pipeline_run c now rid st n m msg))
           = stg_weather_data (working c)"
    by (simp add: update_pipeline_run_def commit_with_def)
qed

text \<open>
  C8. When \<open>run_weather_extraction\<close>, started on tables whose staging rows all belong to
  runs that exist, completes its steps without an exception (the process ends with
  status 0), the extractor and the validation have returned, and the run's row, created
  with a fresh \<open>run_id\<close>, is committed after the rows that were there and ends with
  status \<open>success\<close> when the validation summary has \<open>invalid_count = 0\<close> and
  \<open>partial\<close> otherwise, with \<open>records_extracted\<close> the number of extracted records and
  \<open>records_loaded\<close> the count returned by \<open>load_weather_data\<close>, which is the number
  of rows of the run in the staging table.
\<close>

theorem run_terminal_status:
  assumes fk: "load_id ` set (stg_weather_data d) \<subseteq> run_id ` set (pipeline_runs d)"
    and run: "run_weather_extraction e d = (d', 0)"
  shows "\<exists>records vr c1 rid ca loaded.
           extractor_run e = Inr records
         \<and> validate_batch (render (builtins e)) records = Inr vr
         \<and> create_pipeline_run (connect d) (now_start e) ''weather_api'' = (c1, rid)
         \<and> rid \<notin> run_id ` set (pipeline_runs d)
         \<and> ca = (if invalid_count vr > 0
                  then fst (log_validation_errors (rules e) (now_logged e) 0 c1 rid
                              (invalid_records vr))
                  else c1)
         \<and> loaded = snd (load_weather_data (rules e) ca (valid_records vr) rid)
         \<and> loaded = length (filter (\<lambda>row. load_id row = rid) (stg_weather_data d'))
         \<and> length (stg_weather_data d') = length (stg_weather_data d) + loaded
         \<and> pipeline_runs d' = pipeline_runs d @
             [\<lparr>run_id = rid, pipeline_name = ''multi_source_ingestion'',
               source_type = ''weather_api'',
               status = (if invalid_count vr = 0 then ''success'' else ''partial''),
               start_time = now_start e, end_time = Some (now_end e),
               records_extracted = Some (length records),
               records_loaded = Some loaded, error_message = None\<rparr>]"
proof -
  let ?P = "pipeline_runs d"
  obtain c1 rid where cr: "create_pipeline_run (connect d) (now_start e) ''weather_api'' = (c1, rid)"
    by (cases "create_pipeline_run (connect d) (now_start e) ''weather_api''")
  let ?row0 = "\<lparr>run_id = rid, pipeline_name = ''multi_source_ingestion'',
            source_type = ''weather_api'', status = ''running'', start_time = now_start e,
            end_time = None, records_extracted = None, records_loaded = None,
            error_message = None\<rparr>"
  note init = create_pipeline_run_inv[OF fk cr]
  from run cr obtain c' where steps: "run_steps e c1 rid = (c', None)" and d': "d' = committed c'"
    by (auto simp: run_weather_extraction_def split: if_splits prod.splits option.splits)
  from steps obtain records vr ca c2 loaded c3 stats where
    ex: "extractor_run e = Inr records"
    and vb: "validate_batch (render (builtins e)) records = Inr vr"
    and ca: "ca = (if invalid_count vr > 0
           then fst (log_validation_errors (rules e) (now_logged e) 0 c1 rid (invalid_records vr))
           else c1)"
    and ld: "load_weather_data (rules e) ca (valid_records vr) rid = (c2, loaded)"
    and tp: "transform_to_production (builtins e) (rules e) (now_transformed e) c2 rid
               = (c3, Inr stats)"
    and c': "c' = update_pipeline_run c3 (now_end e) rid
            (if invalid_count vr = 0 then ''success'' else ''partial'')
            (length records) loaded None"
    by (rule run_steps_returns)
  have inv_a: "run_inv ?P ?row0 rid ca" and stg_a: "stg_weather_data (working ca) = stg_weather_data d"
    using init(1,3) log_validation_errors_inv[OF init(1), of "rules e" "now_logged e" 0 rid
        "invalid_records vr"]
    by (simp_all add: ca)
  from load_weather_data_inv[OF inv_a init(2) ld] obtain rows where
    inv_2: "run_inv ?P ?row0 rid c2"
    and rows: "stg_weather_data (working c2) = stg_weather_data (working ca) @ rows"
      "length rows = loaded" "map load_id rows = replicate loaded rid"
    by blast
  from transform_to_production_inv[OF inv_2, of "builtins e" "rules e" "now_transformed e" rid] tp
  have inv_3: "run_inv ?P ?row0 rid c3"
    and stg_3: "stg_weather_data (working c3) = stg_weather_data (working c2)"
    by simp_all
  from transform_to_production_returns[OF tp] stg_3
  have "filter (\<lambda>row. load_id row = rid) (stg_weather_data (working c3)) \<noteq> []" by simp
  with inv_3 have runs_3: "pipeline_runs (working c3) = ?P @ [?row0]"
    by (auto simp: run_inv_def)
  note upd = update_pipeline_run_last[OF runs_3 _ init(2), of "now_end e"
      "if invalid_count vr = 0 then ''success'' else ''partial''" "length records" loaded None]
  have runs: "pipeline_runs d' = ?P @
             [\<lparr>run_id = rid, pipeline_name = ''multi_source_ingestion'',
               source_type = ''weather_api'',
               status = (if invalid_count vr = 0 then ''success'' else ''partial''),
               start_time = now_start e, end_time = Some (now_end e),
               records_extracted = Some (length records),
               records_loaded = Some loaded, error_message = None\<rparr>]"
    using upd(1) by (simp add: d' c')
  have stg: "stg_weather_data d' = stg_weather_data d @ rows"
    using upd(2) stg_3 rows(1) stg_a by (simp add: d' c')
  have "filter (\<lambda>row. load_id row = rid) rows = rows"
  proof -
    have "\<forall>row\<in>set rows. load_id row = rid"
    proof
      fix row assume "row \<in> set rows"
      then have "load_id row \<in> set (map load_id rows)" by simp
      with rows(3) show "load_id row = rid" by simp
    qed
    then show ?thesis by simp
  qed
  with stg init(4) rows(2)
  have cnt: "loaded = length (filter (\<lambda>row. load_id row = rid) (stg_weather_data d'))"
    by simp
  have len: "length (stg_weather_data d') = length (stg_weather_data d) + loaded"
    using stg rows(2) by simp
  have l: "loaded = snd (load_weather_data (rules e) ca (valid_records vr) rid)"
    using ld by simp
  from ex vb cr init(2) ca l cnt len runs show ?thesis by blast
qed

theorem run_terminal_status_witness:
  "load_id ` set (stg_weather_data prior_tables) \<subseteq> run_id ` set (pipeline_runs prior_tables)
   \<and> snd (run_weather_extraction (demo_env accept_all [luque, no_feels_like, heatwave])
            prior_tables) = 0
   \<and> pipeline_runs (fst (run_weather_extraction
          (demo_env accept_all [luque, no_feels_like, heatwave]) prior_tables))
       = [first_run,
          \<lparr>run_id = 2, pipeline_name = ''multi_source_ingestion'',
           source_type = ''weather_api'', status = ''partial'', start_time = 1,
           end_time = Some 200, records_extracted = Some 3, records_loaded = Some 2,
           error_message = None\<rparr>]
   \<and> map load_id (stg_weather_data (fst (run_weather_extraction
          (demo_env accept_all [luque, no_feels_like, heatwave]) prior_tables))) = [1, 2, 2]
   \<and> map status (pipeline_runs (fst (run_weather_extraction
          (demo_env accept_all [luque, no_feels_like]) prior_tables)))
       = [''success'', ''success'']
   \<and> (\<exists>rid loaded.
         rid \<notin> run_id ` set (pipeline_runs prior_tables)
       \<and> loaded = length (filter (\<lambda>row. load_id row = rid) (stg_weather_data
            (fst (run_weather_extraction (demo_env accept_all [luque, no_feels_like, heatwave])
               prior_tables))))
       \<and> map records_loaded (pipeline_runs (fst (run_weather_extraction
            (demo_env accept_all [luque, no_feels_like, heatwave]) prior_tables)))
           = map records_loaded (pipeline_runs prior_tables) @ [Some loaded])"
proof -
  let ?e = "demo_env accept_all [luque, no_feels_like, heatwave]"
  have h1: "load_id ` set (stg_weather_data prior_tables)
      \<subseteq> run_id ` set (pipeline_runs prior_tables)"
    by (simp add: prior_tables_def first_run_def)
  have x: "snd (run_weather_extraction ?e prior_tables) = 0"
    by code_simp
  then have h2: "run_weather_extraction ?e prior_tables
      = (fst (run_weather_extraction ?e prior_tables), 0)"
    by (simp add: prod_eq_iff)
  note th = run_terminal_status[OF h1 h2]
  have e1: "pipeline_runs (fst (run_weather_extraction ?e prior_tables))
       = [first_run,
          \<lparr>run_id = 2, pipeline_name = ''multi_source_ingestion'',
           source_type = ''weather_api'', status = ''partial'', start_time = 1,
           end_time = Some 200, records_extracted = Some 3, records_loaded = Some 2,
           error_message = None\<rparr>]"
    by code_simp
  have e2: "map load_id (stg_weather_data (fst (run_weather_extraction ?e prior_tables)))
      = [1, 2, 2]"
    by code_simp
  have e3: "map status (pipeline_runs (fst (run_weather_extraction
          (demo_env accept_all [luque, no_feels_like]) prior_tables)))
       = [''success'', ''success'']"
    by code_simp
  from th obtain rid loaded where
    r: "rid \<notin> run_id ` set (pipeline_runs prior_tables)"
    and l: "loaded = length (filter (\<lambda>row. load_id row = rid)
              (stg_weather_data (fst (run_weather_extraction ?e prior_tables))))"
    and p: "map records_loaded (pipeline_runs (fst (run_weather_extraction ?e prior_tables)))
           = map records_loaded (pipeline_runs prior_tables) @ [Some loaded]"
    by force
  from h1 x e1 e2 e3 r l p show ?thesis by blast
qed

text \<open>
  C9. A run that extracts an invalid record and a valid one, on a store that rejects the
  staging INSERT: the rejected INSERT is a record-level failure, \<open>load_weather_data\<close>
  catches it and returns 0; the staging table then has no row for the run,
  \<open>transform_to_production\<close> raises \<open>KeyError\<close> on the dictionary of the empty case,
  and the run is marked \<open>failed\<close> with that message and exits with status 1. The same
  run on a store that accepts the row ends \<open>partial\<close> with status 0. When the valid
  record is the only one extracted, the rejected INSERT rolls back the uncommitted row
  of the run: the process exits with status 1 and the tables hold no row for the run at
  all.
\<close>

theorem staging_failure_fails_run:
  "validate_record fmt0 luque = Inr (True, [])
   \<and> snd (insert_staging reject_staging run_db luque 1) = Some (Error ''statement rejected'')
   \<and> snd (load_weather_data reject_staging run_db [luque] 1) = 0
   \<and> snd (run_weather_extraction (demo_env reject_staging [heatwave, luque]) empty_tables) = 1
   \<and> pipeline_runs (fst (run_weather_extraction (demo_env reject_staging [heatwave, luque])
        empty_tables))
       = [\<lparr>run_id = 1, pipeline_name = ''multi_source_ingestion'',
           source_type = ''weather_api'', status = ''failed'', start_time = 1,
           end_time = Some 200, records_extracted = Some 0, records_loaded = Some 0,
           error_message = Some (str_exn (KeyError ''records_transformed''))\<rparr>]
   \<and> snd (run_weather_extraction (demo_env accept_all [heatwave, luque]) empty_tables) = 0
   \<and> map status (pipeline_runs (fst (run_weather_extraction
        (demo_env accept_all [heatwave, luque]) empty_tables))) = [''partial'']
   \<and> run_weather_extraction (demo_env reject_staging [luque]) empty_tables = (empty_tables, 1)"
  by code_simp

section \<open>Properties of load\_to\_production and transform\_and\_load\<close>

lemma load_to_production_eq:
  assumes "weather_metrics (working c) = weather_metrics (committed c)"
  shows "snd (load_to_production s c ps) = length (filter (prod_accepts s) ps)
       \<and> weather_metrics (working (fst (load_to_production s c ps)))
           = fold upsert (filter (prod_accepts s) ps) (weather_metrics (working c))
       \<and> weather_metrics (committed (fst (load_to_production s c ps)))
           = weather_metrics (working (fst (load_to_production s c ps)))"
  using assms
proof (induction ps arbitrary: c)
  case Nil
  then show ?case by simp
next
  case (Cons p ps)
  let ?f = "\<lambda>t. t\<lparr>weather_metrics := upsert p (weather_metrics t)\<rparr>"
  show ?case
  proof (cases "prod_accepts s p")
    case True
    have "weather_metrics (working (commit_with ?f c)) = weather_metrics (committed (commit_with ?f c))"
      by (simp add: commit_with_def)
    from Cons.IH[OF this] True show ?thesis
      by (auto simp: execute_write_def commit_with_def split: prod.splits)
  next
    case False
    have "weather_metrics (working (rollback c)) = weather_metrics (committed (rollback c))"
      by (simp add: rollback_def)
    from Cons.IH[OF this] False Cons.prems show ?thesis
      by (auto simp: execute_write_def rollback_def split: prod.splits)
  qed
qed

lemma load_to_production_synced:
  assumes "synced c"
  shows "synced (fst (load_to_production s c ps))
       \<and> stg_weather_data (working (fst (load_to_production s c ps)))
           = stg_weather_data (working c)"
  using assms
proof (induction ps arbitrary: c)
  case Nil
  then show ?case by simp
next
  case (Cons p ps)
  let ?f = "\<lambda>t. t\<lparr>weather_metrics := upsert p (weather_metrics t)\<rparr>"
  show ?case
  proof (cases "prod_accepts s p")
    case True
    have "synced (commit_with ?f c)" by (simp add: synced_def commit_with_def)
    from Cons.IH[OF this] True show ?thesis
      by (auto simp: execute_write_def commit_with_def split: prod.splits)
  next
    case False
    have "synced (rollback c)" by (simp add: synced_def rollback_def)
    from Cons.IH[OF this] False Cons.prems show ?thesis
      by (auto simp: execute_write_def rollback_def synced_def split: prod.splits)
  qed
qed

lemma load_to_production_flat:
  assumes "working c = committed c"
  shows "load_to_production s c ps =
           (\<lparr>committed = (working c)\<lparr>weather_metrics :=
                 fold upsert (filter (prod_accepts s) ps) (weather_metrics (working c))\<rparr>,
             working = (working c)\<lparr>weather_metrics :=
                 fold upsert (filter (prod_accepts s) ps) (weather_metrics (working c))\<rparr>\<rparr>,
            length (filter (prod_accepts s) ps))"
  using assms
proof (induction ps arbitrary: c)
  case Nil
  then show ?case by (cases c) simp
next
  case (Cons p ps)
  let ?f = "\<lambda>t. t\<lparr>weather_metrics := upsert p (weather_metrics t)\<rparr>"
  show ?case
  proof (cases "prod_accepts s p")
    case True
    have "working (commit_with ?f c) = committed (commit_with ?f c)"
      by (simp add: commit_with_def)
    from Cons.IH[OF this] True show ?thesis
      by (simp add: execute_write_def commit_with_def)
  next
    case False
    have "working (rollback c) = committed (rollback c)"
      by (simp add: rollback_def)
    from Cons.IH[OF this] False Cons.prems show ?thesis
      by (simp add: execute_write_def rollback_def)
  qed
qed

lemma load_to_production_flushed:
  "ps \<noteq> [] \<Longrightarrow>
   working (fst (load_to_production s c ps)) = committed (fst (load_to_production s c ps))"
proof (cases ps)
  case Nil
  then show "ps \<noteq> [] \<Longrightarrow> ?thesis" by simp
next
  case (Cons p ps')
  let ?f = "\<lambda>t. t\<lparr>weather_metrics := upsert p (weather_metrics t)\<rparr>"
  show ?thesis
  proof (cases "prod_accepts s p")
    case True
    have "working (commit_with ?f c) = committed (commit_with ?f c)"
      by (simp add: commit_with_def)
    from load_to_production_flat[OF this, of s ps'] True Cons show ?thesis
      by (simp add: execute_write_def)
  next
    case False
    have "working (rollback c) = committed (rollback c)"
      by (simp add: rollback_def)
    from load_to_production_flat[OF this, of s ps'] False Cons show ?thesis
      by (simp add: execute_write_def)
  qed
qed

lemma get_staging_records_cong:
  "stg_weather_data (working c') = stg_weather_data (working c) \<Longrightarrow>
   get_staging_records c' rid = get_staging_records c rid"
  by (simp add: get_staging_records_def)

lemma transform_and_load_eq:
  "transform_and_load b s clk c rid =
     (if get_staging_records c rid = []
      then (c, [(''transformed_count'', 0), (''loaded_count'', 0)])
      else (fst (load_to_production s c (transform_loop b clk 0 (get_staging_records c rid) [])),
            [(''records_transformed'', length (transform_loop b clk 0 (get_staging_records c rid) [])),
             (''records_loaded'',
              snd (load_to_production s c (transform_loop b clk 0 (get_staging_records c rid) [])))]))"
  by (simp add: transform_and_load_def Let_def split: prod.splits)

lemma transform_and_load_table:
  assumes "synced c"
  shows "weather_metrics (working (fst (transform_and_load b s clk c rid)))
           = fold upsert (filter (prod_accepts s)
                (transform_loop b clk 0 (get_staging_records c rid) []))
               (weather_metrics (working c))"
    and "map snd (snd (transform_and_load b s clk c rid))
           = [length (transform_loop b clk 0 (get_staging_records c rid) []),
              length (filter (prod_accepts s)
                (transform_loop b clk 0 (get_staging_records c rid) []))]"
    and "synced (fst (transform_and_load b s clk c rid))"
    and "stg_weather_data (working (fst (transform_and_load b s clk c rid)))
           = stg_weather_data (working c)"
proof -
  from assms have w: "weather_metrics (working c) = weather_metrics (committed c)"
    by (simp add: synced_def)
  note l = load_to_production_eq[OF w, of s "transform_loop b clk 0 (get_staging_records c rid) []"]
  note y = load_to_production_synced[OF assms, of s
      "transform_loop b clk 0 (get_staging_records c rid) []"]
  show "weather_metrics (working (fst (transform_and_load b s clk c rid)))
           = fold upsert (filter (prod_accepts s)
                (transform_loop b clk 0 (get_staging_records c rid) []))
               (weather_metrics (working c))"
    using l by (simp add: transform_and_load_eq)
  show "map snd (snd (transform_and_load b s clk c rid))
           = [length (transform_loop b clk 0 (get_staging_records c rid) []),
              length (filter (prod_accepts s)
                (transform_loop b clk 0 (get_staging_records c rid) []))]"
    using l by (simp add: transform_and_load_eq)
  show "synced (fst (transform_and_load b s clk c rid))"
    using y assms by (simp add: transform_and_load_eq)
  show "stg_weather_data (working (fst (transform_and_load b s clk c rid)))
           = stg_weather_data (working c)"
    using y by (simp add: transform_and_load_eq)
qed

lemma transform_loop_eq:
  "transform_loop b clk i rs acc =
     acc @ List.map_filter
             (\<lambda>(j, r). case transform_record b (clk j) r of Inl e \<Rightarrow> None | Inr p \<Rightarrow> Some p)
             (enumerate i rs)"
  by (induction rs arbitrary: i acc) (simp_all add: map_filter_simps split: sum.splits)

lemma transform_and_load_idem:
  assumes d: "distinct (map key_of (weather_metrics (working c)))" and y: "synced c"
  shows "transform_and_load b s clk (fst (transform_and_load b s clk c rid)) rid
           = transform_and_load b s clk c rid"
proof (cases "get_staging_records c rid = []")
  case True
  then show ?thesis by (simp add: transform_and_load_eq)
next
  case False
  let ?ps = "transform_loop b clk 0 (get_staging_records c rid) []"
  let ?c1 = "fst (load_to_production s c ?ps)"
  from y have w: "weather_metrics (working c) = weather_metrics (committed c)"
    by (simp add: synced_def)
  note l = load_to_production_eq[OF w, of s ?ps]
  note s1 = load_to_production_synced[OF y, of s ?ps]
  have g: "get_staging_records ?c1 rid = get_staging_records c rid"
    using s1 by (intro get_staging_records_cong) simp
  have again: "load_to_production s ?c1 ?ps = load_to_production s c ?ps"
  proof (cases "?ps = []")
    case True
    then show ?thesis by simp
  next
    case ne: False
    have f: "working ?c1 = committed ?c1"
      using ne by (rule load_to_production_flushed)
    have t: "fold upsert (filter (prod_accepts s) ?ps) (weather_metrics (working ?c1))
        = weather_metrics (working ?c1)"
      using l fold_upsert_idem[OF d, of "filter (prod_accepts s) ?ps"] by simp
    have r1: "(working ?c1)\<lparr>weather_metrics :=
          fold upsert (filter (prod_accepts s) ?ps) (weather_metrics (working ?c1))\<rparr>
        = working ?c1"
      by (simp only: t) simp
    have r2: "\<lparr>committed = working ?c1, working = working ?c1\<rparr> = ?c1"
      using f by (intro db.equality) simp_all
    have "load_to_production s ?c1 ?ps = (?c1, length (filter (prod_accepts s) ?ps))"
      by (simp only: load_to_production_flat[OF f] r1 r2)
    with l show ?thesis by (simp add: prod_eq_iff)
  qed
  from False g again show ?thesis by (simp add: transform_and_load_eq)
qed

lemma transform_and_load_rerun:
  assumes d: "distinct (map key_of (weather_metrics (working c)))" and y: "synced c"
    and h: "\<forall>p t. prod_accepts s (p\<lparr>p_loaded_at := t\<rparr>) = prod_accepts s p"
  shows "map unstamped (weather_metrics (working
            (fst (transform_and_load b s clk' (fst (transform_and_load b s clk c rid)) rid))))
         = map unstamped (weather_metrics (working (fst (transform_and_load b s clk c rid))))"
proof -
  let ?c1 = "fst (transform_and_load b s clk c rid)"
  let ?rs = "get_staging_records c rid"
  let ?P = "transform_loop b clk 0 ?rs []"
  let ?P' = "transform_loop b clk' 0 ?rs []"
  let ?Q = "filter (prod_accepts s) (map unstamped ?P)"
  note t1 = transform_and_load_table[OF y, of b s clk rid]
  note t2 = transform_and_load_table[OF t1(3), of b s clk' rid]
  have g: "get_staging_records ?c1 rid = ?rs"
    using t1(4) by (rule get_staging_records_cong)
  have pp: "map unstamped ?P' = map unstamped ?P"
    by (rule unstamped_transform_loop) simp
  have one: "map unstamped (fold upsert (filter (prod_accepts s) ?P) (weather_metrics (working c)))
      = fold upsert ?Q (map unstamped (weather_metrics (working c)))"
    by (simp add: unstamped_fold_upsert unstamped_filter[OF h])
  have two: "map unstamped (fold upsert (filter (prod_accepts s) ?P')
        (fold upsert (filter (prod_accepts s) ?P) (weather_metrics (working c))))
      = fold upsert ?Q (fold upsert ?Q (map unstamped (weather_metrics (working c))))"
    by (simp add: unstamped_fold_upsert unstamped_filter[OF h] pp)
  have "distinct (map key_of (map unstamped (weather_metrics (working c))))"
    using d by (simp only: map_key_of_unstamped)
  from fold_upsert_idem[OF this, of ?Q] one two show ?thesis
    by (simp add: t1(1) t2(1) g)
qed

text \<open>
  C1. On a connection whose production table has at most one row per key
  \<open>(city, country, recorded_at)\<close> and whose open transaction holds no uncommitted
  change to it or to the staging table: \<open>load_to_production\<close> leaves the production
  table that results from upserting, in order, the records the store accepts, commits
  it, and returns their number; \<open>transform_and_load\<close> does so with the records its
  loop transforms, which are the results of \<open>transform_record\<close> on the staged records
  of the run on which it returns, in order. An upsert whose key is in the table replaces
  that row's other columns by the record's, \<open>loaded_at\<close> included, and changes no other
  row; otherwise it appends the record. After \<open>load_to_production\<close>, and after a
  \<open>transform_and_load\<close> that follows it, the table has at most one row per key.
  Running \<open>transform_and_load\<close> again for the same run adds no row: with the same clock
  readings the connection and the counts are the same, and with other readings the
  table is the same up to \<open>loaded_at\<close> (when the store's acceptance of a row does not
  depend on that stamp).
\<close>

theorem upsert_one_row_per_key:
  assumes d: "distinct (map key_of (weather_metrics (working c)))" and y: "synced c"
  shows "snd (load_to_production s c ps) = length (filter (prod_accepts s) ps)
       \<and> weather_metrics (working (fst (load_to_production s c ps)))
           = fold upsert (filter (prod_accepts s) ps) (weather_metrics (working c))
       \<and> weather_metrics (committed (fst (load_to_production s c ps)))
           = weather_metrics (working (fst (load_to_production s c ps)))
       \<and> weather_metrics (working (fst (transform_and_load b s clk c rid)))
           = fold upsert (filter (prod_accepts s)
                (transform_loop b clk 0 (get_staging_records c rid) []))
               (weather_metrics (working c))
       \<and> map snd (snd (transform_and_load b s clk c rid))
           = [length (transform_loop b clk 0 (get_staging_records c rid) []),
              length (filter (prod_accepts s)
                (transform_loop b clk 0 (get_staging_records c rid) []))]
       \<and> transform_loop b clk 0 rs []
           = List.map_filter
               (\<lambda>(j, r). case transform_record b (clk j) r of Inl e \<Rightarrow> None | Inr p \<Rightarrow> Some p)
               (enumerate 0 rs)
       \<and> (key_of r \<in> set (map key_of (weather_metrics (working c))) \<longrightarrow>
            upsert r (weather_metrics (working c))
              = map (\<lambda>x. if key_of x = key_of r then r else x) (weather_metrics (working c)))
       \<and> (key_of r \<notin> set (map key_of (weather_metrics (working c))) \<longrightarrow>
            upsert r (weather_metrics (working c)) = weather_metrics (working c) @ [r])
       \<and> distinct (map key_of (weather_metrics (working (fst (load_to_production s c ps)))))
       \<and> distinct (map key_of (weather_metrics (working
            (fst (transform_and_load b s clk (fst (load_to_production s c ps)) rid)))))
       \<and> transform_and_load b s clk (fst (transform_and_load b s clk c rid)) rid
            = transform_and_load b s clk c rid
       \<and> ((\<forall>p t. prod_accepts s (p\<lparr>p_loaded_at := t\<rparr>) = prod_accepts s p) \<longrightarrow>
            map unstamped (weather_metrics (working
               (fst (transform_and_load b s clk' (fst (transform_and_load b s clk c rid)) rid))))
            = map unstamped (weather_metrics (working (fst (transform_and_load b s clk c rid)))))"
proof -
  from y have w: "weather_metrics (working c) = weather_metrics (committed c)"
    by (simp add: synced_def)
  note l = load_to_production_eq[OF w, of s ps]
  note t = transform_and_load_table[OF y, of b s clk rid]
  have a: "distinct (map key_of (weather_metrics (working (fst (load_to_production s c ps)))))"
    using d l by (simp add: distinct_fold_upsert)
  have y1: "synced (fst (load_to_production s c ps))"
    using load_to_production_synced[OF y, of s ps] by simp
  have b: "distinct (map key_of (weather_metrics (working
            (fst (transform_and_load b s clk (fst (load_to_production s c ps)) rid)))))"
    using a by (simp add: transform_and_load_table(1)[OF y1] distinct_fold_upsert)
  have e: "transform_loop b clk 0 rs []
           = List.map_filter
               (\<lambda>(j, r). case transform_record b (clk j) r of Inl e \<Rightarrow> None | Inr p \<Rightarrow> Some p)
               (enumerate 0 rs)"
    by (simp add: transform_loop_eq)
  from l t(1,2) e a b upsert_present[OF _ d, of r] upsert_new[of r "weather_metrics (working c)"]
    transform_and_load_idem[OF d y, of b s clk rid]
    transform_and_load_rerun[OF d y, of s b clk' clk rid]
  show ?thesis by blast
qed

theorem upsert_one_row_per_key_witness:
  "distinct (map key_of (weather_metrics (working staged_db)))
   \<and> synced staged_db
   \<and> weather_metrics (working staged_db) = [old_row]
   \<and> weather_metrics (working (fst (load_to_production accept_all staged_db
          [new_row, old_row\<lparr>p_temperature := PInt 30\<rparr>])))
       = [old_row\<lparr>p_temperature := PInt 30\<rparr>, new_row]
   \<and> snd (load_to_production accept_all staged_db
          [new_row, old_row\<lparr>p_temperature := PInt 30\<rparr>]) = 2
   \<and> upsert new_row (weather_metrics (working staged_db))
       = weather_metrics (working staged_db) @ [new_row]
   \<and> upsert (old_row\<lparr>p_temperature := PInt 30\<rparr>) (weather_metrics (working staged_db))
       = map (\<lambda>x. if key_of x = key_of (old_row\<lparr>p_temperature := PInt 30\<rparr>)
                    then old_row\<lparr>p_temperature := PInt 30\<rparr> else x)
           (weather_metrics (working staged_db))
   \<and> weather_metrics (working (fst (transform_and_load demo_builtins accept_all clk0 staged_db 1)))
       = [\<lparr>p_city = ''ASUNCION'', p_country = Some (PStr ''PY''),
           p_temperature = PFloat (351 / 10), p_feels_like = PFloat (338 / 10),
           p_humidity = Some (PInt 34), p_pressure = Some (PInt 1006),
           p_weather_condition = ''sunny'', p_wind_speed = PFloat (72 / 10),
           p_recorded_at = Some 7, p_loaded_at = 100\<rparr>,
          \<lparr>p_city = ''ENCARNACION'', p_country = Some (PStr ''Paraguay''),
           p_temperature = PFloat (351 / 10), p_feels_like = PFloat (338 / 10),
           p_humidity = Some (PInt 34), p_pressure = Some (PInt 1006),
           p_weather_condition = ''sunny'', p_wind_speed = PFloat (72 / 10),
           p_recorded_at = Some 8, p_loaded_at = 101\<rparr>]
   \<and> map snd (snd (transform_and_load demo_builtins accept_all clk0 staged_db 1)) = [2, 2]
   \<and> transform_and_load demo_builtins accept_all clk0
         (fst (transform_and_load demo_builtins accept_all clk0 staged_db 1)) 1
       = transform_and_load demo_builtins accept_all clk0 staged_db 1
   \<and> map p_loaded_at (weather_metrics (working (fst (transform_and_load demo_builtins accept_all
          clk1 (fst (transform_and_load demo_builtins accept_all clk0 staged_db 1)) 1))))
       = [500, 501]
   \<and> map unstamped (weather_metrics (working (fst (transform_and_load demo_builtins accept_all
          clk1 (fst (transform_and_load demo_builtins accept_all clk0 staged_db 1)) 1))))
       = map unstamped (weather_metrics (working
           (fst (transform_and_load demo_builtins accept_all clk0 staged_db 1))))"
proof -
  have h1: "distinct (map key_of (weather_metrics (working staged_db)))"
    by (simp add: staged_db_def connect_def)
  have h2: "synced staged_db"
    by (simp add: synced_def staged_db_def connect_def)
  have w: "weather_metrics (working staged_db) = [old_row]"
    by (simp add: staged_db_def connect_def)
  have k1: "key_of new_row \<notin> set (map key_of (weather_metrics (working staged_db)))"
    by (simp add: w key_of_def new_row_def old_row_def)
  have k2: "key_of (old_row\<lparr>p_temperature := PInt 30\<rparr>)
      \<in> set (map key_of (weather_metrics (working staged_db)))"
    by (simp add: w key_of_def)
  have acc: "\<forall>p t. prod_accepts accept_all (p\<lparr>p_loaded_at := t\<rparr>) = prod_accepts accept_all p"
    by (simp add: accept_all_def)
  note th1 = upsert_one_row_per_key[OF h1 h2, where s=accept_all and b=demo_builtins
      and clk=clk0 and clk'=clk1 and rid=1 and r=new_row
      and ps="[new_row, old_row\<lparr>p_temperature := PInt 30\<rparr>]"
      and rs="get_staging_records staged_db 1"]
  note th2 = upsert_one_row_per_key[OF h1 h2, where s=accept_all and b=demo_builtins
      and clk=clk0 and clk'=clk1 and rid=1 and r="old_row\<lparr>p_temperature := PInt 30\<rparr>"
      and ps="[new_row, old_row\<lparr>p_temperature := PInt 30\<rparr>]"
      and rs="get_staging_records staged_db 1"]
  have e1: "fold upsert (filter (prod_accepts accept_all)
              [new_row, old_row\<lparr>p_temperature := PInt 30\<rparr>]) (weather_metrics (working staged_db))
      = [old_row\<lparr>p_temperature := PInt 30\<rparr>, new_row]"
    by code_simp
  have e1n: "length (filter (prod_accepts accept_all)
              [new_row, old_row\<lparr>p_temperature := PInt 30\<rparr>]) = 2"
    by (simp add: accept_all_def)
  have e2: "fold upsert (filter (prod_accepts accept_all)
                (transform_loop demo_builtins clk0 0 (get_staging_records staged_db 1) []))
               (weather_metrics (working staged_db))
       = [\<lparr>p_city = ''ASUNCION'', p_country = Some (PStr ''PY''),
           p_temperature = PFloat (351 / 10), p_feels_like = PFloat (338 / 10),
           p_humidity = Some (PInt 34), p_pressure = Some (PInt 1006),
           p_weather_condition = ''sunny'', p_wind_speed = PFloat (72 / 10),
           p_recorded_at = Some 7, p_loaded_at = 100\<rparr>,
          \<lparr>p_city = ''ENCARNACION'', p_country = Some (PStr ''Paraguay''),
           p_temperature = PFloat (351 / 10), p_feels_like = PFloat (338 / 10),
           p_humidity = Some (PInt 34), p_pressure = Some (PInt 1006),
           p_weather_condition = ''sunny'', p_wind_speed = PFloat (72 / 10),
           p_recorded_at = Some 8, p_loaded_at = 101\<rparr>]"
    by code_simp
  have e2n: "[length (transform_loop demo_builtins clk0 0 (get_staging_records staged_db 1) []),
              length (filter (prod_accepts accept_all)
                (transform_loop demo_builtins clk0 0 (get_staging_records staged_db 1) []))]
       = [2, 2]"
    by code_simp
  have e3: "map p_loaded_at (weather_metrics (working (fst (transform_and_load demo_builtins
          accept_all clk1 (fst (transform_and_load demo_builtins accept_all clk0 staged_db 1)) 1))))
       = [500, 501]"
    by code_simp
  from th1 have "weather_metrics (working (fst (load_to_production accept_all staged_db
          [new_row, old_row\<lparr>p_temperature := PInt 30\<rparr>])))
       = fold upsert (filter (prod_accepts accept_all)
              [new_row, old_row\<lparr>p_temperature := PInt 30\<rparr>]) (weather_metrics (working staged_db))"
    by blast
  then have c1: "weather_metrics (working (fst (load_to_production accept_all staged_db
          [new_row, old_row\<lparr>p_temperature := PInt 30\<rparr>])))
       = [old_row\<lparr>p_temperature := PInt 30\<rparr>, new_row]"
    by (simp only: e1)
  from th1 have "snd (load_to_production accept_all staged_db
          [new_row, old_row\<lparr>p_temperature := PInt 30\<rparr>])
       = length (filter (prod_accepts accept_all)
              [new_row, old_row\<lparr>p_temperature := PInt 30\<rparr>])"
    by blast
  then have c1n: "snd (load_to_production accept_all staged_db
          [new_row, old_row\<lparr>p_temperature := PInt 30\<rparr>]) = 2"
    by (simp only: e1n)
  from th1 k1 have c2: "upsert new_row (weather_metrics (working staged_db))
       = weather_metrics (working staged_db) @ [new_row]"
    by blast
  from th2 k2 have c3: "upsert (old_row\<lparr>p_temperature := PInt 30\<rparr>)
         (weather_metrics (working staged_db))
       = map (\<lambda>x. if key_of x = key_of (old_row\<lparr>p_temperature := PInt 30\<rparr>)
                    then old_row\<lparr>p_temperature := PInt 30\<rparr> else x)
           (weather_metrics (working staged_db))"
    by blast
  from th1 have "weather_metrics (working
         (fst (transform_and_load demo_builtins accept_all clk0 staged_db 1)))
       = fold upsert (filter (prod_accepts accept_all)
                (transform_loop demo_builtins clk0 0 (get_staging_records staged_db 1) []))
               (weather_metrics (working staged_db))"
    by blast
  then have c4: "weather_metrics (working
         (fst (transform_and_load demo_builtins accept_all clk0 staged_db 1)))
       = [\<lparr>p_city = ''ASUNCION'', p_country = Some (PStr ''PY''),
           p_temperature = PFloat (351 / 10), p_feels_like = PFloat (338 / 10),
           p_humidity = Some (PInt 34), p_pressure = Some (PInt 1006),
           p_weather_condition = ''sunny'', p_wind_speed = PFloat (72 / 10),
           p_recorded_at = Some 7, p_loaded_at = 100\<rparr>,
          \<lparr>p_city = ''ENCARNACION'', p_country = Some (PStr ''Paraguay''),
           p_temperature = PFloat (351 / 10), p_feels_like = PFloat (338 / 10),
           p_humidity = Some (PInt 34), p_pressure = Some (PInt 1006),
           p_weather_condition = ''sunny'', p_wind_speed = PFloat (72 / 10),
           p_recorded_at = Some 8, p_loaded_at = 101\<rparr>]"
    by (simp only: e2)
  from th1 have "map snd (snd (transform_and_load demo_builtins accept_all clk0 staged_db 1))
       = [length (transform_loop demo_builtins clk0 0 (get_staging_records staged_db 1) []),
          length (filter (prod_accepts accept_all)
                (transform_loop demo_builtins clk0 0 (get_staging_records staged_db 1) []))]"
    by blast
  then have c4n: "map snd (snd (transform_and_load demo_builtins accept_all clk0 staged_db 1))
       = [2, 2]"
    by (simp only: e2n)
  from th1 have c5: "transform_and_load demo_builtins accept_all clk0
         (fst (transform_and_load demo_builtins accept_all clk0 staged_db 1)) 1
       = transform_and_load demo_builtins accept_all clk0 staged_db 1"
    by blast
  from th1 acc have c6: "map unstamped (weather_metrics (working (fst (transform_and_load
          demo_builtins accept_all clk1
          (fst (transform_and_load demo_builtins accept_all clk0 staged_db 1)) 1))))
       = map unstamped (weather_metrics (working
           (fst (transform_and_load demo_builtins accept_all clk0 staged_db 1))))"
    by blast
  from h1 h2 w c1 c1n c2 c3 c4 c4n c5 e3 c6 show ?thesis by blast
qed

end
